theory Spec2Isabelle
  imports Complex_Main "HOL-Library.Word" "HOL-Library.Log_Nat"
begin

section \<open>Image primitives of \<^verbatim>\<open>invokeai/app/invocations/image.py\<close>\<close>

text \<open>
  The module defines one class per node, each with an \<^verbatim>\<open>invoke\<close> method that fetches
  its input rasters, calls Pillow or numpy, hands the new raster to the image service and
  returns the stored raster's width and height. The embedding follows that order: first
  the numeric types the module computes with (numpy's \<^verbatim>\<open>float32\<close>, Python's
  \<^verbatim>\<open>float\<close>, 8-bit samples), then rasters and the Pillow calls the nodes make, then
  the nodes.
\<close>

subsection \<open>Binary floating point\<close>

text \<open>
  A floating-point value is a rational, one of the two infinities, or NaN. The sign of
  zero is not kept: the module never divides by a zero that could be negative (the only
  divisor that can be zero is \<^verbatim>\<open>float(self.max - self.min)\<close>, the conversion of the
  integer 0, which is \<open>+0.0\<close>), and a zero of either sign converts to the byte 0.
\<close>

datatype fp = Fin rat | PInf | NInf | NaN

text \<open>Round half to even, to an integer.\<close>

definition rne :: "rat \<Rightarrow> int" where
  "rne x = (let f = \<lfloor>x\<rfloor>; d = x - of_int f
            in if d < 1 / 2 then f else if 1 / 2 < d then f + 1
               else if even f then f else f + 1)"

text \<open>The binary exponent of a positive rational: \<open>2 ^ ilog2 q \<le> q < 2 ^ (ilog2 q + 1)\<close>.\<close>

definition ilog2 :: "rat \<Rightarrow> int" where
  "ilog2 q = (if 1 \<le> q then bitlen \<lfloor>q\<rfloor> - 1 else - bitlen (\<lceil>1 / q\<rceil> - 1))"

text \<open>
  IEEE 754 rounding to nearest, ties to even, into the binary format with \<open>p\<close>
  significand bits and exponents from \<open>emin\<close> to \<open>emax\<close>: the value is rounded to a
  multiple of the unit in the last place of its binade (of the subnormal binade below
  \<open>2 ^ emin\<close>), and a result beyond the largest finite value is an infinity.
\<close>

definition fp_round :: "nat \<Rightarrow> int \<Rightarrow> int \<Rightarrow> rat \<Rightarrow> fp" where
  "fp_round p emin emax q =
     (if q = 0 then Fin 0
      else let e = max (ilog2 \<bar>q\<bar>) emin;
               u = 2 powi (e - int p + 1);
               r = of_int (rne (q / u)) * u
           in if 2 powi (emax + 1) \<le> \<bar>r\<bar> then (if 0 < q then PInf else NInf) else Fin r)"

text \<open>\<^verbatim>\<open>numpy.float32\<close> is binary32, Python's \<^verbatim>\<open>float\<close> is binary64.\<close>

definition round32 :: "rat \<Rightarrow> fp" where
  "round32 = fp_round 24 (- 126) 127"

definition round64 :: "rat \<Rightarrow> fp" where
  "round64 = fp_round 53 (- 1022) 1023"

definition fp_is_nan :: "fp \<Rightarrow> bool" where
  "fp_is_nan a = (case a of NaN \<Rightarrow> True | _ \<Rightarrow> False)"

definition fp_is_inf :: "fp \<Rightarrow> bool" where
  "fp_is_inf a = (case a of PInf \<Rightarrow> True | NInf \<Rightarrow> True | _ \<Rightarrow> False)"

definition fp_sign :: "fp \<Rightarrow> int" where
  "fp_sign a = (case a of Fin q \<Rightarrow> (if 0 < q then 1 else if q < 0 then - 1 else 0)
                          | PInf \<Rightarrow> 1 | NInf \<Rightarrow> - 1 | NaN \<Rightarrow> 0)"

definition fp_of_sign :: "int \<Rightarrow> fp" where
  "fp_of_sign s = (if 0 < s then PInf else if s < 0 then NInf else NaN)"

definition fp_neg :: "fp \<Rightarrow> fp" where
  "fp_neg a = (case a of Fin q \<Rightarrow> Fin (- q) | PInf \<Rightarrow> NInf | NInf \<Rightarrow> PInf | NaN \<Rightarrow> NaN)"

text \<open>
  The arithmetic operations, over a rounding function \<open>rnd\<close> for the format: the exact
  result is rounded once; infinities and NaN follow IEEE 754 (\<open>\<infinity> - \<infinity>\<close>, \<open>0 \<times> \<infinity>\<close>,
  \<open>\<infinity> / \<infinity>\<close> and \<open>0 / 0\<close> are NaN, a nonzero value divided by zero is an infinity).
\<close>

definition fp_add :: "(rat \<Rightarrow> fp) \<Rightarrow> fp \<Rightarrow> fp \<Rightarrow> fp" where
  "fp_add rnd a b =
     (if fp_is_nan a \<or> fp_is_nan b then NaN
      else case (a, b) of
             (Fin x, Fin y) \<Rightarrow> rnd (x + y)
           | (Fin x, _) \<Rightarrow> b
           | (_, Fin y) \<Rightarrow> a
           | _ \<Rightarrow> (if a = b then a else NaN))"

definition fp_sub :: "(rat \<Rightarrow> fp) \<Rightarrow> fp \<Rightarrow> fp \<Rightarrow> fp" where
  "fp_sub rnd a b = fp_add rnd a (fp_neg b)"

definition fp_mul :: "(rat \<Rightarrow> fp) \<Rightarrow> fp \<Rightarrow> fp \<Rightarrow> fp" where
  "fp_mul rnd a b =
     (if fp_is_nan a \<or> fp_is_nan b then NaN
      else case (a, b) of
             (Fin x, Fin y) \<Rightarrow> rnd (x * y)
           | _ \<Rightarrow> fp_of_sign (fp_sign a * fp_sign b))"

definition fp_div :: "(rat \<Rightarrow> fp) \<Rightarrow> fp \<Rightarrow> fp \<Rightarrow> fp" where
  "fp_div rnd a b =
     (if fp_is_nan a \<or> fp_is_nan b then NaN
      else case (a, b) of
             (Fin x, Fin y) \<Rightarrow> (if y = 0 then fp_of_sign (fp_sign a) else rnd (x / y))
           | (Fin x, _) \<Rightarrow> Fin 0
           | (_, Fin y) \<Rightarrow> fp_of_sign (fp_sign a * (if y < 0 then - 1 else 1))
           | _ \<Rightarrow> NaN)"

text \<open>The order of the non-NaN values.\<close>

definition fp_le :: "fp \<Rightarrow> fp \<Rightarrow> bool" where
  "fp_le a b =
     (case (a, b) of
        (NaN, _) \<Rightarrow> False | (_, NaN) \<Rightarrow> False
      | (NInf, _) \<Rightarrow> True | (_, PInf) \<Rightarrow> True
      | (Fin x, Fin y) \<Rightarrow> x \<le> y
      | _ \<Rightarrow> False)"

subsection \<open>numpy on \<^verbatim>\<open>float32\<close> arrays, element by element\<close>

text \<open>
  In \<^verbatim>\<open>arr / 255\<close>, \<^verbatim>\<open>arr * (self.max - self.min)\<close> and the like, the array is
  \<^verbatim>\<open>float32\<close> and the other operand a Python scalar, so numpy computes in
  \<^verbatim>\<open>float32\<close> and converts the scalar to it. A division by zero does not raise in
  numpy: it yields an infinity or NaN (and a warning).
\<close>

definition float32_of_int :: "int \<Rightarrow> fp" where
  "float32_of_int i = round32 (of_int i)"

definition np_add :: "fp \<Rightarrow> fp \<Rightarrow> fp" where
  "np_add = fp_add round32"

definition np_subtract :: "fp \<Rightarrow> fp \<Rightarrow> fp" where
  "np_subtract = fp_sub round32"

definition np_multiply :: "fp \<Rightarrow> fp \<Rightarrow> fp" where
  "np_multiply = fp_mul round32"

definition np_true_divide :: "fp \<Rightarrow> fp \<Rightarrow> fp" where
  "np_true_divide = fp_div round32"

text \<open>\<^verbatim>\<open>numpy.maximum\<close> and \<^verbatim>\<open>numpy.minimum\<close> propagate NaN.\<close>

definition np_maximum :: "fp \<Rightarrow> fp \<Rightarrow> fp" where
  "np_maximum a b = (if fp_is_nan a \<or> fp_is_nan b then NaN else if fp_le a b then b else a)"

definition np_minimum :: "fp \<Rightarrow> fp \<Rightarrow> fp" where
  "np_minimum a b = (if fp_is_nan a \<or> fp_is_nan b then NaN else if fp_le a b then a else b)"

text \<open>
  \<^verbatim>\<open>numpy.uint8(arr)\<close> converts each element as C converts a \<^verbatim>\<open>float\<close> to an
  \<^verbatim>\<open>unsigned char\<close>: the fraction is dropped (towards zero). There is no clamp. For a
  value outside \<open>0 .. 255\<close> C leaves the result open; on x86-64 the value is truncated to
  a 32-bit integer whose low byte is kept, and NaN, the infinities and values beyond 32
  bits give the byte 0. That is what is written here.
\<close>

definition to_zero :: "rat \<Rightarrow> int" where
  "to_zero q = (if 0 \<le> q then \<lfloor>q\<rfloor> else \<lceil>q\<rceil>)"

definition np_uint8 :: "fp \<Rightarrow> 8 word" where
  "np_uint8 a =
     (case a of
        Fin q \<Rightarrow> (let i = to_zero q
                  in if - (2 ^ 31) \<le> i \<and> i < 2 ^ 31 then word_of_int i else 0)
      | _ \<Rightarrow> 0)"

text \<open>\<^verbatim>\<open>numpy.asarray(image, dtype=numpy.float32)\<close> on an 8-bit sample is exact.\<close>

definition asarray_float32 :: "8 word \<Rightarrow> fp" where
  "asarray_float32 v = Fin (of_int (uint v))"

subsection \<open>The arithmetic of Lerp and InverseLerp on one sample\<close>

text \<open>
  \<^verbatim>\<open>ImageLerpInvocation.invoke\<close>:
  \<^verbatim>\<open>image_arr = numpy.asarray(image, dtype=numpy.float32) / 255\<close>,
  \<^verbatim>\<open>image_arr = image_arr * (self.max - self.min) + self.max\<close>; the result is stored
  through \<^verbatim>\<open>numpy.uint8(image_arr)\<close>.
\<close>

definition lerp_value :: "int \<Rightarrow> int \<Rightarrow> 8 word \<Rightarrow> fp" where
  "lerp_value mn mx v =
     np_add (np_multiply (np_true_divide (asarray_float32 v) (float32_of_int 255))
                         (float32_of_int (mx - mn)))
            (float32_of_int mx)"

definition lerp_sample :: "int \<Rightarrow> int \<Rightarrow> 8 word \<Rightarrow> 8 word" where
  "lerp_sample mn mx v = np_uint8 (lerp_value mn mx v)"

text \<open>
  \<^verbatim>\<open>ImageInverseLerpInvocation.invoke\<close>:
  \<^verbatim>\<open>numpy.minimum(numpy.maximum(image_arr - self.min, 0) / float(self.max - self.min), 1) * 255\<close>.
  The divisor is not tested against zero.
\<close>

definition ilerp_value :: "int \<Rightarrow> int \<Rightarrow> 8 word \<Rightarrow> fp" where
  "ilerp_value mn mx v =
     np_multiply
       (np_minimum
          (np_true_divide
             (np_maximum (np_subtract (asarray_float32 v) (float32_of_int mn)) (float32_of_int 0))
             (float32_of_int (mx - mn)))
          (float32_of_int 1))
       (float32_of_int 255)"

definition ilerp_sample :: "int \<Rightarrow> int \<Rightarrow> 8 word \<Rightarrow> 8 word" where
  "ilerp_sample mn mx v = np_uint8 (ilerp_value mn mx v)"


subsection \<open>Rasters\<close>

text \<open>
  The image service stores PNG files; the rasters modelled here are the 8-bit greyscale
  and truecolour ones it returns, with or without alpha: Pillow's modes \<^verbatim>\<open>L\<close>,
  \<^verbatim>\<open>LA\<close>, \<^verbatim>\<open>RGB\<close> and \<^verbatim>\<open>RGBA\<close>. A raster is its mode, its size and its rows
  of pixels, a pixel being the list of its band values.
\<close>

datatype mode = L | LA | RGB | RGBA

type_synonym pixel = "8 word list"

record Image =
  im_mode :: mode
  im_width :: nat
  im_height :: nat
  im_rows :: "pixel list list"

fun getbands :: "mode \<Rightarrow> string" where
  "getbands L = ''L''"
| "getbands LA = ''LA''"
| "getbands RGB = ''RGB''"
| "getbands RGBA = ''RGBA''"

definition bands :: "mode \<Rightarrow> nat" where
  "bands m = length (getbands m)"

text \<open>
  A raster as the image service returns it: both dimensions positive (a PNG has no
  empty image) and within a C \<^verbatim>\<open>int\<close>, as Pillow keeps them, \<open>im_height\<close> rows of
  \<open>im_width\<close> pixels, each with one value per band.
\<close>

definition wf_image :: "Image \<Rightarrow> bool" where
  "wf_image im =
     (0 < im_width im \<and> 0 < im_height im \<and>
      im_width im < 2 ^ 31 \<and> im_height im < 2 ^ 31 \<and>
      length (im_rows im) = im_height im \<and>
      list_all (\<lambda>row. length row = im_width im \<and>
                       list_all (\<lambda>p. length p = bands (im_mode im)) row) (im_rows im))"

definition pixel_at :: "Image \<Rightarrow> nat \<Rightarrow> nat \<Rightarrow> pixel" where
  "pixel_at im x y = im_rows im ! y ! x"

text \<open>The exceptions the Pillow and Python calls of the module raise.\<close>

datatype error = ValueError | OSError | IndexError | KeyError | TypeError | OverflowError
  | ZeroDivisionError

text \<open>\<^verbatim>\<open>Image.new(mode, size, color)\<close>; a negative size is a \<^verbatim>\<open>ValueError\<close>.\<close>

definition Image_new :: "mode \<Rightarrow> int \<times> int \<Rightarrow> pixel \<Rightarrow> error + Image" where
  "Image_new m sz color =
     (if fst sz < 0 \<or> snd sz < 0 then Inl ValueError
      else Inr \<lparr>im_mode = m, im_width = nat (fst sz), im_height = nat (snd sz),
                im_rows = replicate (nat (snd sz)) (replicate (nat (fst sz)) color)\<rparr>)"

text \<open>
  \<^verbatim>\<open>im.convert("RGBA")\<close>, which \<^verbatim>\<open>paste\<close> applies to a source whose mode differs
  from the RGBA canvas: grey is copied to the three colours, a missing alpha is 255.
\<close>

fun convert_pixel_RGBA :: "mode \<Rightarrow> pixel \<Rightarrow> pixel" where
  "convert_pixel_RGBA L p = [p ! 0, p ! 0, p ! 0, 255]"
| "convert_pixel_RGBA LA p = [p ! 0, p ! 0, p ! 0, p ! 1]"
| "convert_pixel_RGBA RGB p = [p ! 0, p ! 1, p ! 2, 255]"
| "convert_pixel_RGBA RGBA p = p"

definition convert_RGBA :: "Image \<Rightarrow> Image" where
  "convert_RGBA im =
     im\<lparr>im_mode := RGBA, im_rows := map (map (convert_pixel_RGBA (im_mode im))) (im_rows im)\<rparr>"

text \<open>
  The blend of \<^verbatim>\<open>Paste.c\<close> for an \<^verbatim>\<open>L\<close> mask:
  \<^verbatim>\<open>BLEND8(mask, in1, in2) = DIV255(in1 * (255 - mask) + in2 * mask)\<close> with
  \<^verbatim>\<open>DIV255(a) = (tmp = a + 128, ((tmp >> 8) + tmp) >> 8)\<close>; \<open>in1\<close> is the
  destination, \<open>in2\<close> the source.
\<close>

definition blend8 :: "8 word \<Rightarrow> 8 word \<Rightarrow> 8 word \<Rightarrow> 8 word" where
  "blend8 msk in1 in2 =
     (let tmp = unat in1 * (255 - unat msk) + unat in2 * unat msk + 128
      in of_nat ((tmp div 256 + tmp) div 256))"

text \<open>
  \<^verbatim>\<open>Image.paste(im, box, mask)\<close> with a 2-tuple box, as the module calls it, on the
  RGBA canvas. The Python part converts a source of another mode to the canvas's mode;
  \<^verbatim>\<open>ImagingPaste\<close> then checks that the mask has the source's size (\<^verbatim>\<open>ValueError\<close>,
  images do not match), clips the box to the destination, returns if nothing is left,
  and otherwise copies the source pixels (no mask), blends them by the mask value (mask
  of mode \<^verbatim>\<open>L\<close>) or by the mask's alpha band (\<^verbatim>\<open>LA\<close>, \<^verbatim>\<open>RGBA\<close>); any other mask
  mode is a \<^verbatim>\<open>ValueError\<close> (bad transparency mask).
\<close>

definition clip_box :: "int \<Rightarrow> int \<Rightarrow> int \<Rightarrow> int \<times> int" where
  "clip_box d0 ssize dsize =
     (let xsize = (if d0 < 0 then ssize + d0 else ssize);
          d = (if d0 < 0 then 0 else d0);
          xsize' = (if dsize < d + xsize then dsize - d else xsize)
      in (d, xsize'))"

definition paste_pixels ::
  "(pixel \<Rightarrow> nat \<Rightarrow> nat \<Rightarrow> pixel \<Rightarrow> pixel) \<Rightarrow> Image \<Rightarrow> Image \<Rightarrow> int \<Rightarrow> int \<Rightarrow> Image" where
  "paste_pixels f dst src dx0 dy0 =
     (let (cx, xsize) = clip_box dx0 (int (im_width src)) (int (im_width dst));
          (cy, ysize) = clip_box dy0 (int (im_height src)) (int (im_height dst))
      in if xsize \<le> 0 \<or> ysize \<le> 0 then dst
         else dst\<lparr>im_rows :=
                map (\<lambda>y. map (\<lambda>x.
                       if cx \<le> int x \<and> int x < cx + xsize \<and> cy \<le> int y \<and> int y < cy + ysize
                       then f (im_rows dst ! y ! x) (nat (int x - dx0)) (nat (int y - dy0))
                              (im_rows src ! nat (int y - dy0) ! nat (int x - dx0))
                       else im_rows dst ! y ! x) [0..<im_width dst]) [0..<im_height dst]\<rparr>)"

definition paste :: "Image \<Rightarrow> Image \<Rightarrow> int \<times> int \<Rightarrow> Image option \<Rightarrow> error + Image" where
  "paste dst im box msk =
     (let src = (if im_mode dst \<noteq> im_mode im then convert_RGBA im else im)
      in case msk of
           None \<Rightarrow> Inr (paste_pixels (\<lambda>out sx sy inp. inp) dst src (fst box) (snd box))
         | Some m \<Rightarrow>
             if im_width m \<noteq> im_width im \<or> im_height m \<noteq> im_height im then Inl ValueError
             else if snd (clip_box (fst box) (int (im_width src)) (int (im_width dst))) \<le> 0 \<or>
                     snd (clip_box (snd box) (int (im_height src)) (int (im_height dst))) \<le> 0
             then Inr dst
             else (case im_mode m of
                     L \<Rightarrow> Inr (paste_pixels
                                 (\<lambda>out sx sy inp. map2 (blend8 (hd (im_rows m ! sy ! sx))) out inp)
                                 dst src (fst box) (snd box))
                   | RGB \<Rightarrow> Inl ValueError
                   | _ \<Rightarrow> Inr (paste_pixels
                                 (\<lambda>out sx sy inp. map2 (blend8 (last (im_rows m ! sy ! sx))) out inp)
                                 dst src (fst box) (snd box))))"

text \<open>
  \<^verbatim>\<open>ImageOps.invert\<close>: the lookup table \<open>255 - i\<close> on every band of an \<^verbatim>\<open>L\<close> or
  \<^verbatim>\<open>RGB\<close> image; any other of these modes is an \<^verbatim>\<open>OSError\<close> (not supported for
  this image mode).
\<close>

definition ImageOps_invert :: "Image \<Rightarrow> error + Image" where
  "ImageOps_invert im =
     (if im_mode im = L \<or> im_mode im = RGB
      then Inr (im\<lparr>im_rows := map (map (map (\<lambda>v. 255 - v))) (im_rows im)\<rparr>)
      else Inl OSError)"

text \<open>\<^verbatim>\<open>Image.split()\<close>: one \<^verbatim>\<open>L\<close> image per band.\<close>

definition getband :: "Image \<Rightarrow> nat \<Rightarrow> Image" where
  "getband im c = im\<lparr>im_mode := L, im_rows := map (map (\<lambda>p. [p ! c])) (im_rows im)\<rparr>"

definition split :: "Image \<Rightarrow> Image list" where
  "split im = map (getband im) [0..<bands (im_mode im)]"

text \<open>\<^verbatim>\<open>Image.getchannel(name)\<close>: a band that the mode does not have is a \<^verbatim>\<open>ValueError\<close>.\<close>

fun index_of :: "'a list \<Rightarrow> 'a \<Rightarrow> nat option" where
  "index_of [] a = None"
| "index_of (x # xs) a = (if x = a then Some 0 else map_option Suc (index_of xs a))"

definition getchannel :: "Image \<Rightarrow> char \<Rightarrow> error + Image" where
  "getchannel im channel =
     (case index_of (getbands (im_mode im)) channel of
        None \<Rightarrow> Inl ValueError
      | Some c \<Rightarrow> Inr (getband im c))"

text \<open>
  \<^verbatim>\<open>ImageChops.multiply\<close>, that is \<^verbatim>\<open>ImagingChopMultiply\<close>: operands with different
  numbers of bands are a \<^verbatim>\<open>ValueError\<close> (images do not match); the result has the
  first operand's mode and the smaller width and the smaller height of the two; each
  byte is \<^verbatim>\<open>in1[x] * in2[x] / 255\<close> in C's integer arithmetic, clipped to \<open>0 .. 255\<close>.
\<close>

definition chop_pixel :: "8 word \<Rightarrow> 8 word \<Rightarrow> 8 word" where
  "chop_pixel a b =
     (let temp = uint a * uint b div 255
      in if temp \<le> 0 then 0 else if 255 \<le> temp then 255 else word_of_int temp)"

definition ImageChops_multiply :: "Image \<Rightarrow> Image \<Rightarrow> error + Image" where
  "ImageChops_multiply image1 image2 =
     (if bands (im_mode image1) \<noteq> bands (im_mode image2) then Inl ValueError
      else let xsize = min (im_width image1) (im_width image2);
               ysize = min (im_height image1) (im_height image2)
           in Inr \<lparr>im_mode = im_mode image1, im_width = xsize, im_height = ysize,
                   im_rows = map (\<lambda>y. map (\<lambda>x. map2 chop_pixel (im_rows image1 ! y ! x)
                                                               (im_rows image2 ! y ! x))
                                            [0..<xsize]) [0..<ysize]\<rparr>)"


subsection \<open>The nodes\<close>

text \<open>
  Each \<^verbatim>\<open>invoke\<close> fetches its rasters by name from the image service; here the node
  holds the fetched rasters. A raised exception ends the invocation.
\<close>

definition and_then :: "error + 'a \<Rightarrow> ('a \<Rightarrow> error + 'b) \<Rightarrow> error + 'b" where
  "and_then r f = (case r of Inl e \<Rightarrow> Inl e | Inr v \<Rightarrow> f v)"

text \<open>
  \<^verbatim>\<open>ImageCropInvocation.invoke\<close>:
  \<^verbatim>\<open>image_crop = Image.new(mode="RGBA", size=(self.width, self.height), color=(0, 0, 0, 0))\<close>,
  \<^verbatim>\<open>image_crop.paste(image, (-self.x, -self.y))\<close>.
\<close>

definition img_crop :: "Image \<Rightarrow> int \<Rightarrow> int \<Rightarrow> int \<Rightarrow> int \<Rightarrow> error + Image" where
  "img_crop im x y w h =
     and_then (Image_new RGBA (w, h) [0, 0, 0, 0])
       (\<lambda>image_crop. paste image_crop im (- x, - y) None)"

text \<open>
  \<^verbatim>\<open>ImagePasteInvocation.invoke\<close>: the mask, when there is one, goes through
  \<^verbatim>\<open>ImageOps.invert\<close>; the canvas spans the base at its origin and the image at
  \<open>(x, y)\<close>; the base is pasted first, then the image with the inverted mask.
\<close>

definition img_paste :: "Image \<Rightarrow> Image \<Rightarrow> Image option \<Rightarrow> int \<Rightarrow> int \<Rightarrow> error + Image" where
  "img_paste base_image im mask_field x y =
     and_then (case mask_field of None \<Rightarrow> Inr None
                | Some m \<Rightarrow> and_then (ImageOps_invert m) (\<lambda>inv. Inr (Some inv)))
       (\<lambda>msk.
          let min_x = min 0 x;
              min_y = min 0 y;
              max_x = max (int (im_width base_image)) (int (im_width im) + x);
              max_y = max (int (im_height base_image)) (int (im_height im) + y)
          in and_then (Image_new RGBA (max_x - min_x, max_y - min_y) [0, 0, 0, 0])
               (\<lambda>new_image.
                  and_then (paste new_image base_image (\<bar>min_x\<bar>, \<bar>min_y\<bar>) None)
                    (\<lambda>new_image'. paste new_image' im (max 0 x, max 0 y) msk)))"

text \<open>
  The canvas of \<^verbatim>\<open>ImagePasteInvocation.invoke\<close> between its two \<^verbatim>\<open>paste\<close> calls:
  the base is on it, the image not yet.
\<close>

definition paste_base :: "Image \<Rightarrow> Image \<Rightarrow> int \<Rightarrow> int \<Rightarrow> error + Image" where
  "paste_base base_image im x y =
     (let min_x = min 0 x;
          min_y = min 0 y;
          max_x = max (int (im_width base_image)) (int (im_width im) + x);
          max_y = max (int (im_height base_image)) (int (im_height im) + y)
      in and_then (Image_new RGBA (max_x - min_x, max_y - min_y) [0, 0, 0, 0])
           (\<lambda>new_image. paste new_image base_image (\<bar>min_x\<bar>, \<bar>min_y\<bar>) None))"

text \<open>
  \<^verbatim>\<open>MaskFromAlphaInvocation.invoke\<close>: \<^verbatim>\<open>image_mask = image.split()[-1]\<close>, inverted
  when \<^verbatim>\<open>self.invert\<close> is set. The mode of the image is not looked at.
\<close>

definition tomask :: "Image \<Rightarrow> bool \<Rightarrow> error + Image" where
  "tomask im invert =
     (case split im of
        [] \<Rightarrow> Inl IndexError
      | b # bs \<Rightarrow> (let image_mask = last (b # bs)
                   in if invert then ImageOps_invert image_mask else Inr image_mask))"

text \<open>\<^verbatim>\<open>ImageMultiplyInvocation.invoke\<close>: \<^verbatim>\<open>ImageChops.multiply(image1, image2)\<close>.\<close>

definition img_mul :: "Image \<Rightarrow> Image \<Rightarrow> error + Image" where
  "img_mul image1 image2 = ImageChops_multiply image1 image2"

text \<open>\<^verbatim>\<open>ImageChannelInvocation.invoke\<close>: \<^verbatim>\<open>image.getchannel(self.channel)\<close>.\<close>

definition img_chan :: "Image \<Rightarrow> char \<Rightarrow> error + Image" where
  "img_chan im channel = getchannel im channel"

text \<open>
  \<^verbatim>\<open>ImageLerpInvocation.invoke\<close> and \<^verbatim>\<open>ImageInverseLerpInvocation.invoke\<close>: the
  sample arithmetic above on every element of the array of the image;
  \<^verbatim>\<open>Image.fromarray\<close> gives the array of bytes the mode the image had.
\<close>

definition img_lerp :: "Image \<Rightarrow> int \<Rightarrow> int \<Rightarrow> error + Image" where
  "img_lerp im mn mx = Inr (im\<lparr>im_rows := map (map (map (lerp_sample mn mx))) (im_rows im)\<rparr>)"

definition img_ilerp :: "Image \<Rightarrow> int \<Rightarrow> int \<Rightarrow> error + Image" where
  "img_ilerp im mn mx = Inr (im\<lparr>im_rows := map (map (map (ilerp_sample mn mx))) (im_rows im)\<rparr>)"

subsection \<open>Nodes whose pixels are computed outside the module\<close>

text \<open>
  Blur, Convert, Resize, Scale, NSFWBlur and Watermark pass the raster to a Pillow
  filter, converter or resampler, or to the safety checker and the watermark encoder.
  Their pixel arithmetic is not part of this module; of their result the embedding keeps
  the size, which is what the node returns. Running out of memory is not modelled.
\<close>

definition image_size :: "Image \<Rightarrow> nat \<times> nat" where
  "image_size im = (im_width im, im_height im)"

definition IMAGE_CHANNELS :: "char list" where
  "IMAGE_CHANNELS = ''ARGB''"

definition IMAGE_MODES :: "string list" where
  "IMAGE_MODES = [''L'', ''RGB'', ''RGBA'', ''CMYK'', ''YCbCr'', ''LAB'', ''HSV'', ''I'', ''F'']"

definition PIL_RESAMPLING_MODES :: "string list" where
  "PIL_RESAMPLING_MODES =
     [''nearest'', ''box'', ''bilinear'', ''hamming'', ''bicubic'', ''lanczos'']"

text \<open>The values are those of Pillow's \<^verbatim>\<open>Image.Resampling\<close> enumeration.\<close>

definition PIL_RESAMPLING_MAP :: "(string \<times> nat) list" where
  "PIL_RESAMPLING_MAP =
     [(''nearest'', 0), (''box'', 4), (''bilinear'', 2), (''hamming'', 5), (''bicubic'', 3),
      (''lanczos'', 1)]"

text \<open>
  What the module takes from outside: which pairs of modes Pillow's \<^verbatim>\<open>convert\<close>
  supports, the verdict of \<^verbatim>\<open>SafetyChecker.has_nsfw_concept\<close>, and the caution image
  as \<^verbatim>\<open>_get_caution_img\<close> returns it.
\<close>

record env =
  can_convert :: "mode \<Rightarrow> string \<Rightarrow> bool"
  has_nsfw_concept :: "Image \<Rightarrow> bool"
  caution_img :: Image

text \<open>
  \<^verbatim>\<open>Image.resize(size, resample)\<close>, as far as the size goes: a request for the size
  the image has returns a copy; a size that does not fit a C \<^verbatim>\<open>int\<close> is an
  \<^verbatim>\<open>OverflowError\<close>; a width or height below 1 is a \<^verbatim>\<open>ValueError\<close> (height and width
  must be > 0); otherwise the result has the requested size.
\<close>

definition resize_size :: "nat \<times> nat \<Rightarrow> int \<times> int \<Rightarrow> error + nat \<times> nat" where
  "resize_size cur sz =
     (if (int (fst cur), int (snd cur)) = sz then Inr cur
      else if \<not> (- (2 ^ 31) \<le> fst sz \<and> fst sz < 2 ^ 31 \<and> - (2 ^ 31) \<le> snd sz \<and> snd sz < 2 ^ 31)
      then Inl OverflowError
      else if fst sz < 1 \<or> snd sz < 1 then Inl ValueError
      else Inr (nat (fst sz), nat (snd sz)))"

text \<open>
  Python's \<^verbatim>\<open>int * float\<close> converts the integer to a \<^verbatim>\<open>float\<close> (an
  \<^verbatim>\<open>OverflowError\<close> if it is too large) and multiplies in binary64; \<^verbatim>\<open>int(x)\<close> drops
  the fraction of a finite \<^verbatim>\<open>float\<close>, raises \<^verbatim>\<open>OverflowError\<close> on an infinity and
  \<^verbatim>\<open>ValueError\<close> on NaN.
\<close>

definition py_int_mul_float :: "int \<Rightarrow> fp \<Rightarrow> error + fp" where
  "py_int_mul_float i f =
     (case round64 (of_int i) of
        Fin a \<Rightarrow> Inr (fp_mul round64 (Fin a) f)
      | _ \<Rightarrow> Inl OverflowError)"

definition py_int :: "fp \<Rightarrow> error + int" where
  "py_int a = (case a of Fin q \<Rightarrow> Inr (to_zero q) | NaN \<Rightarrow> Inl ValueError | _ \<Rightarrow> Inl OverflowError)"

definition lookup_resampling :: "string \<Rightarrow> error + nat" where
  "lookup_resampling k =
     (case map_of PIL_RESAMPLING_MAP k of None \<Rightarrow> Inl KeyError | Some v \<Rightarrow> Inr v)"


text \<open>
  \<^verbatim>\<open>ImageConvertInvocation.invoke\<close>: \<^verbatim>\<open>image.convert(self.mode)\<close> keeps the size; a
  pair of modes without a converter is a \<^verbatim>\<open>ValueError\<close>.
\<close>

definition img_conv_size :: "env \<Rightarrow> Image \<Rightarrow> string \<Rightarrow> error + nat \<times> nat" where
  "img_conv_size ev im target =
     (if can_convert ev (im_mode im) target then Inr (image_size im) else Inl ValueError)"

text \<open>
  \<^verbatim>\<open>ImageBlurInvocation.invoke\<close>: \<^verbatim>\<open>image.filter(blur)\<close> with a Gaussian or a box
  blur of the given radius; the filtered image has the size of the image.
\<close>

definition img_blur_size :: "Image \<Rightarrow> fp \<Rightarrow> string \<Rightarrow> error + nat \<times> nat" where
  "img_blur_size im radius blur_type = Inr (image_size im)"

text \<open>
  \<^verbatim>\<open>ImageResizeInvocation.invoke\<close>:
  \<^verbatim>\<open>image.resize((self.width, self.height), resample=resample_mode)\<close>; a field that
  is \<^verbatim>\<open>None\<close> is a \<^verbatim>\<open>TypeError\<close> in \<^verbatim>\<open>resize\<close>.
\<close>

definition img_resize_size :: "Image \<Rightarrow> int option \<Rightarrow> int option \<Rightarrow> string \<Rightarrow> error + nat \<times> nat" where
  "img_resize_size im w h resample_mode =
     and_then (lookup_resampling resample_mode)
       (\<lambda>resample. case (w, h) of
                      (Some w', Some h') \<Rightarrow> resize_size (image_size im) (w', h')
                    | _ \<Rightarrow> Inl TypeError)"

text \<open>
  \<^verbatim>\<open>ImageScaleInvocation.invoke\<close>:
  \<^verbatim>\<open>width = int(image.width * self.scale_factor)\<close>,
  \<^verbatim>\<open>height = int(image.height * self.scale_factor)\<close>,
  \<^verbatim>\<open>image.resize((width, height), resample=resample_mode)\<close>. The field is an
  \<^verbatim>\<open>Optional[float]\<close>; \<^verbatim>\<open>None\<close> is a \<^verbatim>\<open>TypeError\<close> in the product.
\<close>

definition img_scale_size :: "Image \<Rightarrow> fp option \<Rightarrow> string \<Rightarrow> error + nat \<times> nat" where
  "img_scale_size im scale_factor resample_mode =
     and_then (lookup_resampling resample_mode)
       (\<lambda>resample. case scale_factor of
            None \<Rightarrow> Inl TypeError
          | Some f \<Rightarrow>
              and_then (and_then (py_int_mul_float (int (im_width im)) f) py_int)
                (\<lambda>w. and_then (and_then (py_int_mul_float (int (im_height im)) f) py_int)
                   (\<lambda>h. resize_size (image_size im) (w, h))))"

text \<open>
  \<^verbatim>\<open>ImageNSFWBlurInvocation.invoke\<close>: a flagged image is blurred and the caution image
  pasted on it at \<open>(0, 0)\<close> with itself as the mask, which changes pixels in place; an
  image that is not flagged is stored as it is. The paste fails on a mask of a mode that
  is no transparency mask, as in \<open>paste\<close>.
\<close>

definition img_nsfw_size :: "env \<Rightarrow> Image \<Rightarrow> error + nat \<times> nat" where
  "img_nsfw_size ev im =
     (if has_nsfw_concept ev im
      then (let caution = caution_img ev
            in if snd (clip_box 0 (int (im_width caution)) (int (im_width im))) \<le> 0 \<or>
                  snd (clip_box 0 (int (im_height caution)) (int (im_height im))) \<le> 0
               then Inr (image_size im)
               else if im_mode caution = RGB then Inl ValueError
               else Inr (image_size im))
      else Inr (image_size im))"

text \<open>
  Modelled from the spec: \<^verbatim>\<open>InvisibleWatermark.add_watermark\<close> is defined in
  \<^verbatim>\<open>invokeai/backend/image_util/invisible_watermark.py\<close>, which is not among the
  sources. The spec says of it that "the returned raster has identical visible
  dimensions".
\<close>

definition add_watermark_size :: "nat \<times> nat \<Rightarrow> string \<Rightarrow> nat \<times> nat" where
  "add_watermark_size sz txt = sz"

definition img_watermark_size :: "Image \<Rightarrow> string \<Rightarrow> error + nat \<times> nat" where
  "img_watermark_size im txt = Inr (add_watermark_size (image_size im) txt)"

subsection \<open>The output of a node\<close>

text \<open>
  Every node hands its raster to \<^verbatim>\<open>context.services.images.create\<close> and returns
  \<^verbatim>\<open>ImageOutput(image=..., width=image_dto.width, height=image_dto.height)\<close>
  (\<^verbatim>\<open>MaskOutput\<close> for the mask node, with the same two numbers): the name under which
  the raster was stored, and the stored raster's width and height. The name is the
  store's; the record keeps the two numbers.
\<close>

record ImageOutput =
  width :: nat
  height :: nat

definition output_of_size :: "nat \<times> nat \<Rightarrow> ImageOutput" where
  "output_of_size sz = \<lparr>width = fst sz, height = snd sz\<rparr>"

definition create :: "error + Image \<Rightarrow> error + ImageOutput" where
  "create r = and_then r (\<lambda>im. Inr (output_of_size (image_size im)))"

definition create_size :: "error + nat \<times> nat \<Rightarrow> error + ImageOutput" where
  "create_size r = and_then r (\<lambda>sz. Inr (output_of_size sz))"

datatype invocation =
    ImageCropInvocation Image int int int int
  | ImagePasteInvocation Image Image "Image option" int int
  | MaskFromAlphaInvocation Image bool
  | ImageMultiplyInvocation Image Image
  | ImageChannelInvocation Image char
  | ImageConvertInvocation Image string
  | ImageBlurInvocation Image fp string
  | ImageResizeInvocation Image "int option" "int option" string
  | ImageScaleInvocation Image "fp option" string
  | ImageLerpInvocation Image int int
  | ImageInverseLerpInvocation Image int int
  | ImageNSFWBlurInvocation Image
  | ImageWatermarkInvocation Image string

fun invoke :: "env \<Rightarrow> invocation \<Rightarrow> error + ImageOutput" where
  "invoke ev (ImageCropInvocation im x y w h) = create (img_crop im x y w h)"
| "invoke ev (ImagePasteInvocation base_image im msk x y) = create (img_paste base_image im msk x y)"
| "invoke ev (MaskFromAlphaInvocation im invert) = create (tomask im invert)"
| "invoke ev (ImageMultiplyInvocation image1 image2) = create (img_mul image1 image2)"
| "invoke ev (ImageChannelInvocation im channel) = create (img_chan im channel)"
| "invoke ev (ImageConvertInvocation im target) = create_size (img_conv_size ev im target)"
| "invoke ev (ImageBlurInvocation im radius blur_type) = create_size (img_blur_size im radius blur_type)"
| "invoke ev (ImageResizeInvocation im w h resample_mode) = create_size (img_resize_size im w h resample_mode)"
| "invoke ev (ImageScaleInvocation im scale_factor resample_mode) = create_size (img_scale_size im scale_factor resample_mode)"
| "invoke ev (ImageLerpInvocation im mn mx) = create (img_lerp im mn mx)"
| "invoke ev (ImageInverseLerpInvocation im mn mx) = create (img_ilerp im mn mx)"
| "invoke ev (ImageNSFWBlurInvocation im) = create_size (img_nsfw_size ev im)"
| "invoke ev (ImageWatermarkInvocation im txt) = create_size (img_watermark_size im txt)"

text \<open>
  The constraints that the field declarations put on a node (\<^verbatim>\<open>gt=0\<close>, \<^verbatim>\<open>ge=64\<close>,
  \<^verbatim>\<open>multiple_of=8\<close>, \<^verbatim>\<open>ge=0, le=255\<close>, the literals); they are checked when the node
  is built, before \<^verbatim>\<open>invoke\<close>.
\<close>

definition fp_positive :: "fp \<Rightarrow> bool" where
  "fp_positive a = (case a of Fin q \<Rightarrow> 0 < q | PInf \<Rightarrow> True | _ \<Rightarrow> False)"

definition resize_field_ok :: "int option \<Rightarrow> bool" where
  "resize_field_ok w = (case w of None \<Rightarrow> True | Some v \<Rightarrow> 64 \<le> v \<and> v mod 8 = 0)"

fun valid_fields :: "invocation \<Rightarrow> bool" where
  "valid_fields (ImageCropInvocation im x y w h) = (0 < w \<and> 0 < h)"
| "valid_fields (ImageChannelInvocation im channel) = (channel \<in> set IMAGE_CHANNELS)"
| "valid_fields (ImageConvertInvocation im target) = (target \<in> set IMAGE_MODES)"
| "valid_fields (ImageBlurInvocation im radius blur_type) =
     (fp_le (Fin 0) radius \<and> blur_type \<in> set [''gaussian'', ''box''])"
| "valid_fields (ImageResizeInvocation im w h resample_mode) =
     (resize_field_ok w \<and> resize_field_ok h \<and> resample_mode \<in> set PIL_RESAMPLING_MODES)"
| "valid_fields (ImageScaleInvocation im scale_factor resample_mode) =
     ((case scale_factor of None \<Rightarrow> True | Some f \<Rightarrow> fp_positive f) \<and>
      resample_mode \<in> set PIL_RESAMPLING_MODES)"
| "valid_fields (ImageLerpInvocation im mn mx) = (0 \<le> mn \<and> mn \<le> 255 \<and> 0 \<le> mx \<and> mx \<le> 255)"
| "valid_fields (ImageInverseLerpInvocation im mn mx) =
     (0 \<le> mn \<and> mn \<le> 255 \<and> 0 \<le> mx \<and> mx \<le> 255)"
| "valid_fields _ = True"

text \<open>The rasters a node reads.\<close>

fun inputs :: "invocation \<Rightarrow> Image list" where
  "inputs (ImageCropInvocation im x y w h) = [im]"
| "inputs (ImagePasteInvocation base_image im msk x y) =
     base_image # im # (case msk of None \<Rightarrow> [] | Some m \<Rightarrow> [m])"
| "inputs (MaskFromAlphaInvocation im invert) = [im]"
| "inputs (ImageMultiplyInvocation image1 image2) = [image1, image2]"
| "inputs (ImageChannelInvocation im channel) = [im]"
| "inputs (ImageConvertInvocation im target) = [im]"
| "inputs (ImageBlurInvocation im radius blur_type) = [im]"
| "inputs (ImageResizeInvocation im w h resample_mode) = [im]"
| "inputs (ImageScaleInvocation im scale_factor resample_mode) = [im]"
| "inputs (ImageLerpInvocation im mn mx) = [im]"
| "inputs (ImageInverseLerpInvocation im mn mx) = [im]"
| "inputs (ImageNSFWBlurInvocation im) = [im]"
| "inputs (ImageWatermarkInvocation im txt) = [im]"


section \<open>Properties\<close>

subsection \<open>Rounding\<close>

lemma rne_of_int: "rne (of_int n) = n"
  by (simp add: rne_def)

lemma rne_mono: "x \<le> y \<Longrightarrow> rne x \<le> rne y"
proof -
  assume xy: "x \<le> y"
  have fl: "\<lfloor>x\<rfloor> \<le> \<lfloor>y\<rfloor>" using xy by (rule floor_mono)
  have a: "rne x \<le> \<lfloor>x\<rfloor> + 1" by (simp add: rne_def Let_def)
  have b: "\<lfloor>y\<rfloor> \<le> rne y" by (simp add: rne_def Let_def)
  show ?thesis
  proof (cases "\<lfloor>x\<rfloor> < \<lfloor>y\<rfloor>")
    case True
    then show ?thesis using a b by linarith
  next
    case False
    then have eq: "\<lfloor>x\<rfloor> = \<lfloor>y\<rfloor>" using fl by simp
    then show ?thesis using xy by (auto simp: rne_def Let_def)
  qed
qed

lemma ilog2_upper: 
  assumes "0 < q" "q < 2 ^ n" "0 < n"
  shows "ilog2 q \<le> int n - 1"
proof (cases "1 \<le> q")
  case True
  have "\<lfloor>q\<rfloor> < 2 ^ n" using assms(2) by (simp add: floor_less_iff)
  then have "bitlen \<lfloor>q\<rfloor> \<le> int n" by (simp add: bitlen_le_iff_power)
  then show ?thesis using True by (simp add: ilog2_def)
next
  case False
  have "0 \<le> bitlen (\<lceil>1 / q\<rceil> - 1)" by (rule bitlen_nonneg)
  then show ?thesis using False assms(3) by (simp add: ilog2_def)
qed

lemma ilog2_bounds:
  assumes "0 < q"
  shows "2 powi (ilog2 q) \<le> q \<and> q < 2 powi (ilog2 q + 1)"
proof (cases "1 \<le> q")
  case True
  then have pos: "0 < \<lfloor>q\<rfloor>" by linarith
  from bitlen_bounds[OF pos] have lo: "2 ^ nat (bitlen \<lfloor>q\<rfloor> - 1) \<le> \<lfloor>q\<rfloor>" and hi: "\<lfloor>q\<rfloor> < 2 ^ nat (bitlen \<lfloor>q\<rfloor>)" by auto
  have b1: "1 \<le> bitlen \<lfloor>q\<rfloor>" using pos by (simp add: bitlen_ge_iff_power)
  have "(2::rat) ^ nat (bitlen \<lfloor>q\<rfloor> - 1) = of_int (2 ^ nat (bitlen \<lfloor>q\<rfloor> - 1))" by simp
  also have "\<dots> \<le> of_int \<lfloor>q\<rfloor>" using lo by (simp only: of_int_le_iff)
  also have "\<dots> \<le> q" by simp
  finally have L: "(2::rat) ^ nat (bitlen \<lfloor>q\<rfloor> - 1) \<le> q" .
  have "\<lfloor>q\<rfloor> + 1 \<le> 2 ^ nat (bitlen \<lfloor>q\<rfloor>)" using hi by simp
  then have "of_int (\<lfloor>q\<rfloor> + 1) \<le> (of_int (2 ^ nat (bitlen \<lfloor>q\<rfloor>)) :: rat)" by (simp only: of_int_le_iff)
  moreover have "q < of_int (\<lfloor>q\<rfloor> + 1)" by linarith
  ultimately have H: "q < 2 ^ nat (bitlen \<lfloor>q\<rfloor>)" by simp
  show ?thesis using True L H b1 by (simp add: ilog2_def power_int_def)
next
  case False
  then have q1: "q < 1" by simp
  let ?c = "\<lceil>1 / q\<rceil>"
  let ?k = "bitlen (?c - 1)"
  have inv: "1 < 1 / q" using assms q1 by simp
  then have c2: "2 \<le> ?c" by linarith
  then have pos: "0 < ?c - 1" by simp
  from bitlen_bounds[OF pos] have lo: "2 ^ nat (?k - 1) \<le> ?c - 1" and hi: "?c - 1 < 2 ^ nat ?k" by auto
  have k1: "1 \<le> ?k" using pos by (simp add: bitlen_ge_iff_power)
  have ck: "?c \<le> 2 ^ nat ?k" using hi by simp
  have "1 / q \<le> of_int ?c" by (rule le_of_int_ceiling)
  also have "(of_int ?c :: rat) \<le> of_int (2 ^ nat ?k)" using ck by (rule iffD2[OF of_int_le_iff])
  also have "(of_int (2 ^ nat ?k) :: rat) = 2 ^ nat ?k" by simp
  finally have "1 / q \<le> 2 ^ nat ?k" .
  then have L: "1 / 2 ^ nat ?k \<le> q" using assms by (simp add: field_simps)
  have "(2::rat) ^ nat (?k - 1) = of_int (2 ^ nat (?k - 1))" by simp
  also have "\<dots> \<le> of_int (?c - 1)" using lo by (rule iffD2[OF of_int_le_iff])
  also have "(of_int (?c - 1) :: rat) < 1 / q" by linarith
  finally have "2 ^ nat (?k - 1) < 1 / q" .
  then have H: "q < 1 / 2 ^ nat (?k - 1)" using assms by (simp add: field_simps)
  have e: "ilog2 q = - ?k" using False by (simp add: ilog2_def)
  have n1: "nat (?k - 1) = nat ?k - 1" by simp
  show ?thesis using L H k1 unfolding e
    by (auto simp add: power_int_def field_simps nat_diff_distrib)
qed


lemma rne_between:
  assumes "of_int a * 2 ^ k \<le> x" "x \<le> of_int b * 2 ^ k"
  shows "a * 2 ^ k \<le> rne x \<and> rne x \<le> b * 2 ^ k"
proof -
  have "rne (of_int (a * 2 ^ k)) \<le> rne x" using assms(1) by (intro rne_mono) simp
  moreover have "rne x \<le> rne (of_int (b * 2 ^ k))" using assms(2) by (intro rne_mono) simp
  ultimately show ?thesis by (simp only: rne_of_int)
qed

lemma fp_round_between:
  assumes lo: "of_int a \<le> q" and hi: "q \<le> of_int b"
    and ra: "- (2 ^ p) < a" and rb: "b < 2 ^ p"
    and p0: "0 < p" and em: "emin \<le> 0" and ex: "int p \<le> emax + 1"
  shows "\<exists>r. fp_round p emin emax q = Fin r \<and> of_int a \<le> r \<and> r \<le> of_int b"
proof (cases "q = 0")
  case True
  then show ?thesis using lo hi by (simp add: fp_round_def)
next
  case False
  have b': "(of_int b :: rat) < 2 ^ p" using rb by simp
  have "- a < 2 ^ p" using ra by simp
  then have "(of_int (- a) :: rat) < 2 ^ p" by (simp only: of_int_less_numeral_power_cancel_iff)
  then have a': "- (2 ^ p) < (of_int a :: rat)" by simp
  have qa: "- (2 ^ p) < q" using a' lo by linarith
  have qb: "q < 2 ^ p" using b' hi by linarith
  have absq: "\<bar>q\<bar> < 2 ^ p" using qa qb by (simp add: abs_less_iff)
  have posq: "0 < \<bar>q\<bar>" using False by simp
  define e where "e = max (ilog2 \<bar>q\<bar>) emin"
  have ele: "e \<le> int p - 1"
    using ilog2_upper[OF posq absq p0] em p0 by (simp add: e_def)
  define k where "k = nat (int p - 1 - e)"
  have ek: "e - int p + 1 = - int k" using ele by (simp add: k_def)
  define u :: rat where "u = 2 powi (e - int p + 1)"
  have u: "u = 1 / 2 ^ k" unfolding u_def ek by (simp add: power_int_minus field_simps)
  have qu: "q / u = q * 2 ^ k" by (simp add: u)
  define m where "m = rne (q / u)"
  have "of_int a * 2 ^ k \<le> q * 2 ^ k" using lo by simp
  moreover have "q * 2 ^ k \<le> of_int b * 2 ^ k" using hi by simp
  ultimately have mb: "a * 2 ^ k \<le> m \<and> m \<le> b * 2 ^ k"
    unfolding m_def qu by (rule rne_between)
  define r :: rat where "r = of_int m * u"
  have "(of_int (a * 2 ^ k) :: rat) \<le> of_int m" using mb by (simp only: of_int_le_iff)
  then have r1: "of_int a \<le> r" by (simp add: r_def u field_simps)
  have "(of_int m :: rat) \<le> of_int (b * 2 ^ k)" using mb by (simp only: of_int_le_iff)
  then have r2: "r \<le> of_int b" by (simp add: r_def u field_simps)
  have "- (2 ^ p) < r" using a' r1 by linarith
  moreover have "r < 2 ^ p" using b' r2 by linarith
  ultimately have "\<bar>r\<bar> < 2 ^ p" by (simp add: abs_less_iff)
  moreover have "(2::rat) ^ p \<le> 2 powi (emax + 1)"
  proof -
    have "(2::rat) ^ p = 2 powi (int p)" by simp
    also have "\<dots> \<le> 2 powi (emax + 1)" using ex by (intro power_int_increasing) simp_all
    finally show ?thesis .
  qed
  ultimately have nov: "\<not> 2 powi (emax + 1) \<le> \<bar>r\<bar>" by simp
  have "fp_round p emin emax q = Fin r"
    using False nov by (simp add: fp_round_def Let_def e_def[symmetric] u_def[symmetric] m_def[symmetric] r_def[symmetric])
  then show ?thesis using r1 r2 by blast
qed

lemma round32_between:
  assumes "of_int a \<le> q" "q \<le> of_int b" "- 16777216 < a" "b < 16777216"
  shows "\<exists>r. round32 q = Fin r \<and> of_int a \<le> r \<and> r \<le> of_int b"
  unfolding round32_def using assms by (intro fp_round_between) simp_all

lemma round32_of_int:
  assumes "- 16777216 < a" "a < 16777216"
  shows "round32 (of_int a) = Fin (of_int a)"
  using round32_between[of a "of_int a" a] assms by auto


lemma float32_of_int_small:
  "- 16777216 < i \<Longrightarrow> i < 16777216 \<Longrightarrow> float32_of_int i = Fin (of_int i)"
  by (simp add: float32_of_int_def round32_of_int)

lemma np_add_Fin: "np_add (Fin a) (Fin b) = round32 (a + b)"
  by (simp add: np_add_def fp_add_def fp_is_nan_def)

lemma np_subtract_Fin: "np_subtract (Fin a) (Fin b) = round32 (a - b)"
  by (simp add: np_subtract_def fp_sub_def fp_neg_def fp_add_def fp_is_nan_def)

lemma np_multiply_Fin: "np_multiply (Fin a) (Fin b) = round32 (a * b)"
  by (simp add: np_multiply_def fp_mul_def fp_is_nan_def)

lemma np_true_divide_Fin: "b \<noteq> 0 \<Longrightarrow> np_true_divide (Fin a) (Fin b) = round32 (a / b)"
  by (simp add: np_true_divide_def fp_div_def fp_is_nan_def)

lemma np_true_divide_zero:
  "np_true_divide (Fin a) (Fin 0) = (if 0 < a then PInf else if a < 0 then NInf else NaN)"
  by (simp add: np_true_divide_def fp_div_def fp_is_nan_def fp_of_sign_def fp_sign_def)

lemma np_maximum_Fin: "np_maximum (Fin a) (Fin b) = Fin (max a b)"
  by (simp add: np_maximum_def fp_is_nan_def fp_le_def max_def)

lemma np_minimum_Fin: "np_minimum (Fin a) (Fin b) = Fin (min a b)"
  by (simp add: np_minimum_def fp_is_nan_def fp_le_def min_def)

lemma np_uint8_in_range:
  assumes "0 \<le> r" "r < 256"
  shows "uint (np_uint8 (Fin r)) = \<lfloor>r\<rfloor>"
proof -
  have f0: "0 \<le> \<lfloor>r\<rfloor>" using assms(1) by simp
  have f1: "\<lfloor>r\<rfloor> < 256" using assms(2) by (simp add: floor_less_iff)
  have "np_uint8 (Fin r) = word_of_int \<lfloor>r\<rfloor>"
    using assms f0 f1 by (simp add: np_uint8_def to_zero_def Let_def)
  then show ?thesis using f0 f1 by (simp add: uint_word_of_int take_bit_eq_mod)
qed

lemma uint8_bounds: "0 \<le> uint (v :: 8 word) \<and> uint v \<le> 255"
proof -
  have "uint v < 2 ^ LENGTH(8)" by (rule uint_bounded)
  then show ?thesis by simp
qed

lemma ilerp_value_range:
  assumes "0 \<le> mn" "mn < mx" "mx \<le> 255"
  shows "\<exists>r. ilerp_value mn mx v = Fin r \<and> 0 \<le> r \<and> r \<le> 255"
proof -
  define x where "x = uint v"
  have xb: "0 \<le> x" "x \<le> 255" using uint8_bounds[of v] by (simp_all add: x_def)
  define n where "n = max (x - mn) 0"
  have nb: "0 \<le> n" "n \<le> 255" using xb assms by (simp_all add: n_def)
  define d where "d = mx - mn"
  have db: "1 \<le> d" "d \<le> 255" using assms by (simp_all add: d_def)
  have sub: "np_subtract (asarray_float32 v) (float32_of_int mn) = Fin (of_int (x - mn))"
  proof -
    have "np_subtract (asarray_float32 v) (float32_of_int mn) = round32 (of_int (x - mn))"
      using assms by (simp add: asarray_float32_def x_def float32_of_int_small np_subtract_Fin)
    also have "\<dots> = Fin (of_int (x - mn))" using xb assms by (intro round32_of_int) simp_all
    finally show ?thesis .
  qed
  have mx0: "np_maximum (Fin (of_int (x - mn))) (float32_of_int 0) = Fin (of_int n)"
    by (simp add: float32_of_int_small np_maximum_Fin n_def)
  have dne: "(of_int d :: rat) \<noteq> 0" using db by simp
  have q0: "(of_int 0 :: rat) \<le> of_int n / of_int d" using nb db by simp
  have "(of_int n :: rat) / of_int d \<le> of_int n"
    using nb db by (simp add: divide_le_eq mult_le_cancel_left1)
  also have "\<dots> \<le> of_int 255" using nb by (simp only: of_int_le_iff)
  finally have q1: "(of_int n :: rat) / of_int d \<le> of_int 255" .
  obtain r1 where r1: "round32 (of_int n / of_int d) = Fin r1" "0 \<le> r1" "r1 \<le> 255"
    using round32_between[OF q0 q1] by auto
  have dv: "np_true_divide (Fin (of_int n)) (float32_of_int d) = Fin r1"
    using db dne r1 by (simp add: float32_of_int_small np_true_divide_Fin)
  define r2 where "r2 = min r1 1"
  have r2b: "0 \<le> r2" "r2 \<le> 1" using r1 by (simp_all add: r2_def)
  have mn1: "np_minimum (Fin r1) (float32_of_int 1) = Fin r2"
    by (simp add: float32_of_int_small np_minimum_Fin r2_def)
  have p0: "(of_int 0 :: rat) \<le> r2 * 255" using r2b by simp
  have p1: "r2 * 255 \<le> of_int 255" using r2b by simp
  obtain r where r: "round32 (r2 * 255) = Fin r" "0 \<le> r" "r \<le> 255"
    using round32_between[OF p0 p1] by auto
  have ml: "np_multiply (Fin r2) (float32_of_int 255) = Fin r"
    using r by (simp add: float32_of_int_small np_multiply_Fin)
  have "ilerp_value mn mx v = Fin r"
    unfolding ilerp_value_def sub mx0 d_def[symmetric] dv mn1 ml ..
  then show ?thesis using r by blast
qed


lemma rne_error: "\<bar>of_int (rne x) - x\<bar> \<le> 1 / 2"
proof -
  have "of_int \<lfloor>x\<rfloor> \<le> x" "x < of_int \<lfloor>x\<rfloor> + 1" by linarith+
  then show ?thesis by (auto simp: rne_def Let_def abs_le_iff)
qed

lemma fp_round_error:
  assumes qB: "\<bar>q\<bar> \<le> B" and eB: "2 powi emin \<le> B" and fin: "fp_round p emin emax q = Fin r"
  shows "\<bar>r - q\<bar> \<le> B / 2 ^ p"
proof (cases "q = 0")
  case True
  then have "r = 0" using fin by (simp add: fp_round_def)
  moreover have "0 \<le> B" using qB by linarith
  ultimately show ?thesis using True by simp
next
  case False
  then have posq: "0 < \<bar>q\<bar>" by simp
  define e where "e = max (ilog2 \<bar>q\<bar>) emin"
  define u :: rat where "u = 2 powi (e - int p + 1)"
  define m where "m = rne (q / u)"
  have upos: "0 < u" by (simp add: u_def)
  have "2 powi (ilog2 \<bar>q\<bar>) \<le> \<bar>q\<bar>" using ilog2_bounds[OF posq] by simp
  then have "2 powi (ilog2 \<bar>q\<bar>) \<le> B" using qB by linarith
  then have eb: "2 powi e \<le> B" using eB by (simp add: e_def max_def)
  have r: "r = of_int m * u"
    using fin False
    by (simp add: fp_round_def Let_def e_def[symmetric] u_def[symmetric] m_def[symmetric] split: if_splits)
  have "r - q = (of_int m - q / u) * u" using upos by (simp add: r field_simps)
  then have "\<bar>r - q\<bar> = \<bar>of_int m - q / u\<bar> * u" using upos by (simp add: abs_mult)
  also have "\<dots> \<le> (1 / 2) * u"
    using rne_error[of "q / u"] upos unfolding m_def by (intro mult_right_mono) simp_all
  also have "(1 / 2) * u = 2 powi e / 2 ^ p"
    by (simp add: u_def power_int_diff power_int_add)
  also have "\<dots> \<le> B / 2 ^ p" using eb by (simp add: divide_right_mono)
  finally show ?thesis .
qed

lemma round32_error:
  assumes "\<bar>q\<bar> \<le> B" "1 \<le> B" "round32 q = Fin r"
  shows "\<bar>r - q\<bar> \<le> B / 16777216"
proof -
  have "(2::rat) powi (- 126) \<le> 1" by (simp add: power_int_def power_le_one)
  then have "(2::rat) powi (- 126) \<le> B" using assms(2) by linarith
  from fp_round_error[OF assms(1) this assms(3)[unfolded round32_def]] show ?thesis by simp
qed


lemma scaled_between:
  fixes r :: rat
  assumes "0 \<le> r" "r \<le> 1"
  shows "of_int (min 0 d) \<le> r * of_int d \<and> r * of_int d \<le> of_int (max 0 d)"
proof (cases "0 \<le> d")
  case True
  then have d0: "(0::rat) \<le> of_int d" by simp
  have "r * of_int d \<le> 1 * of_int d" using assms(2) d0 by (rule mult_right_mono)
  moreover have "0 \<le> r * of_int d" using assms(1) d0 by simp
  ultimately show ?thesis using True by (simp add: min_def max_def)
next
  case False
  then have d0: "(of_int d :: rat) \<le> 0" by simp
  have "1 * of_int d \<le> r * of_int d" using assms(2) d0 by (rule mult_right_mono_neg)
  moreover have "r * of_int d \<le> 0" using assms(1) d0 by (simp add: mult_nonneg_nonpos)
  ultimately show ?thesis using False by (simp add: min_def max_def)
qed

lemma lerp_value_props:
  assumes "0 \<le> mn" "mn \<le> 255" "0 \<le> mx" "mx \<le> 255"
  shows "\<exists>r. lerp_value mn mx v = Fin r \<and>
             of_int (min mx (2 * mx - mn)) \<le> r \<and> r \<le> of_int (max mx (2 * mx - mn)) \<and>
             \<bar>r - (of_int (uint v) * of_int (mx - mn) / 255 + of_int mx)\<bar> \<le> 1 / 16384"
proof -
  define x where "x = uint v"
  have xb: "0 \<le> x" "x \<le> 255" using uint8_bounds[of v] by (simp_all add: x_def)
  define d where "d = mx - mn"
  have db: "- 255 \<le> d" "d \<le> 255" using assms by (simp_all add: d_def)
  define q1 :: rat where "q1 = of_int x / 255"
  have q1lo: "(of_int 0 :: rat) \<le> q1" using xb by (simp add: q1_def)
  have q1hi: "q1 \<le> of_int 1" using xb by (simp add: q1_def)
  obtain r1 where r1: "round32 q1 = Fin r1" "0 \<le> r1" "r1 \<le> 1"
    using round32_between[OF q1lo q1hi] by auto
  have "\<bar>q1\<bar> \<le> 1" using q1lo q1hi by simp
  from round32_error[OF this _ r1(1)] have e1: "\<bar>r1 - q1\<bar> \<le> 1 / 16777216" by simp
  have s1: "np_true_divide (asarray_float32 v) (float32_of_int 255) = Fin r1"
    using r1(1) by (simp add: asarray_float32_def float32_of_int_small np_true_divide_Fin
        x_def[symmetric] q1_def)
  define q2 :: rat where "q2 = r1 * of_int d"
  have q2b: "of_int (min 0 d) \<le> q2" "q2 \<le> of_int (max 0 d)"
    using scaled_between[OF r1(2) r1(3), of d] by (simp_all add: q2_def)
  obtain r2 where r2: "round32 q2 = Fin r2" "of_int (min 0 d) \<le> r2" "r2 \<le> of_int (max 0 d)"
    using round32_between[OF q2b] db by auto
  have lo255: "(- 255 :: rat) \<le> of_int (min 0 d)"
  proof -
    have "(- 255 :: int) \<le> min 0 d" using db by simp
    then have "(of_int (- 255) :: rat) \<le> of_int (min 0 d)" by (simp only: of_int_le_iff)
    then show ?thesis by simp
  qed
  have hi255: "(of_int (max 0 d) :: rat) \<le> 255"
  proof -
    have "max 0 d \<le> (255 :: int)" using db by simp
    then have "(of_int (max 0 d) :: rat) \<le> of_int 255" by (simp only: of_int_le_iff)
    then show ?thesis by simp
  qed
  have "\<bar>q2\<bar> \<le> 255" using q2b lo255 hi255 by (simp add: abs_le_iff)
  from round32_error[OF this _ r2(1)] have e2: "\<bar>r2 - q2\<bar> \<le> 255 / 16777216" by simp
  have s2: "np_multiply (Fin r1) (float32_of_int d) = Fin r2"
    using r2(1) db by (simp add: float32_of_int_small np_multiply_Fin q2_def)
  define q3 :: rat where "q3 = r2 + of_int mx"
  have q3lo: "of_int (min 0 d + mx) \<le> q3" using r2(2) by (simp add: q3_def)
  have q3hi: "q3 \<le> of_int (max 0 d + mx)" using r2(3) by (simp add: q3_def)
  have bnds: "- 16777216 < min 0 d + mx" "max 0 d + mx < 16777216" using db assms by simp_all
  obtain r where r: "round32 q3 = Fin r" "of_int (min 0 d + mx) \<le> r" "r \<le> of_int (max 0 d + mx)"
    using round32_between[OF q3lo q3hi bnds] by blast
  have mxb: "(0::rat) \<le> of_int mx" "(of_int mx :: rat) \<le> 255" using assms by simp_all
  have "\<bar>q3\<bar> \<le> 510" using r2(2,3) lo255 hi255 mxb by (simp add: q3_def abs_le_iff)
  from round32_error[OF this _ r(1)] have e3: "\<bar>r - q3\<bar> \<le> 510 / 16777216" by simp
  have s3: "np_add (Fin r2) (float32_of_int mx) = Fin r"
    using r(1) assms by (simp add: float32_of_int_small np_add_Fin q3_def)
  have val: "lerp_value mn mx v = Fin r"
    unfolding lerp_value_def s1 d_def[symmetric] s2 s3 ..
  have m1: "min 0 d + mx = min mx (2 * mx - mn)" by (simp add: d_def min_def)
  have m2: "max 0 d + mx = max mx (2 * mx - mn)" by (simp add: d_def max_def)
  have dabs: "\<bar>of_int d :: rat\<bar> \<le> 255" using db by (simp add: abs_le_iff)
  have "\<bar>q2 - q1 * of_int d\<bar> = \<bar>r1 - q1\<bar> * \<bar>of_int d\<bar>"
    by (simp add: q2_def abs_mult[symmetric] left_diff_distrib)
  also have "\<dots> \<le> (1 / 16777216) * 255"
    using e1 dabs by (intro mult_mono) simp_all
  finally have e12: "\<bar>q2 - q1 * of_int d\<bar> \<le> 255 / 16777216" by simp
  have "r - (of_int x * of_int d / 255 + of_int mx) = (r - q3) + (r2 - q2) + (q2 - q1 * of_int d)"
    by (simp add: q3_def q1_def)
  then have "\<bar>r - (of_int x * of_int d / 255 + of_int mx)\<bar> \<le> \<bar>r - q3\<bar> + \<bar>r2 - q2\<bar> + \<bar>q2 - q1 * of_int d\<bar>"
    by linarith
  also have "\<dots> \<le> 510 / 16777216 + 255 / 16777216 + 255 / 16777216"
    using e3 e2 e12 by linarith
  also have "\<dots> \<le> 1 / 16384" by simp
  finally have acc: "\<bar>r - (of_int x * of_int d / 255 + of_int mx)\<bar> \<le> 1 / 16384" .
  have lo: "of_int (min mx (2 * mx - mn)) \<le> r" using r(2) unfolding m1 .
  have hi: "r \<le> of_int (max mx (2 * mx - mn))" using r(3) unfolding m2 .
  have acc': "\<bar>r - (of_int (uint v) * of_int (mx - mn) / 255 + of_int mx)\<bar> \<le> 1 / 16384"
    using acc unfolding x_def d_def .
  show ?thesis
    by (rule exI[of _ r]) (intro conjI val lo hi acc')
qed


lemma to_zero_mono_bounds:
  assumes "of_int a \<le> r" "r \<le> of_int b" "a \<le> 0" "0 \<le> b"
  shows "a \<le> to_zero r \<and> to_zero r \<le> b"
proof (cases "0 \<le> r")
  case True
  have "\<lfloor>r\<rfloor> \<le> b" using assms(2) by (simp add: floor_le_iff)
  moreover have "0 \<le> \<lfloor>r\<rfloor>" using True by simp
  moreover have "to_zero r = \<lfloor>r\<rfloor>" using True by (simp add: to_zero_def)
  ultimately show ?thesis using assms(3) by linarith
next
  case False
  have "a \<le> \<lceil>r\<rceil>" using assms(1) by (simp add: le_ceiling_iff)
  moreover have "\<lceil>r\<rceil> \<le> 0" using False by (simp add: ceiling_le_iff)
  moreover have "to_zero r = \<lceil>r\<rceil>" using False by (simp add: to_zero_def)
  ultimately show ?thesis using assms(4) by linarith
qed

text \<open>
  C2 (defect of the code). The claim has Lerp saturate its value to \<open>0 .. 255\<close>. The
  node does not: \<^verbatim>\<open>numpy.uint8(image_arr)\<close> is a bare cast. At the node's default
  bounds \<open>min = 0\<close>, \<open>max = 255\<close> the sample 255 has the value
  \<open>255 / 255 * (255 - 0) + 255 = 510\<close> and is stored as 254, where saturation gives
  255; with \<open>min = 10\<close>, \<open>max = 200\<close> it has the value 390 and is stored as 134,
  below the minimum output value.
\<close>

theorem lerp_overflow_wraps:
  "lerp_value 0 255 255 = Fin 510 \<and>
   img_lerp \<lparr>im_mode = L, im_width = 2, im_height = 1, im_rows = [[[255], [0]]]\<rparr> 0 255 =
     Inr \<lparr>im_mode = L, im_width = 2, im_height = 1, im_rows = [[[254], [255]]]\<rparr> \<and>
   lerp_value 10 200 255 = Fin 390 \<and>
   img_lerp \<lparr>im_mode = L, im_width = 2, im_height = 1, im_rows = [[[255], [128]]]\<rparr> 10 200 =
     Inr \<lparr>im_mode = L, im_width = 2, im_height = 1, im_rows = [[[134], [39]]]\<rparr>"
  by code_simp

text \<open>
  C10 (amended). For every sample and every \<open>0 \<le> min < max \<le> 255\<close>, InverseLerp's
  value before the conversion to 8 bits is finite and lies in \<open>0 .. 255\<close>, and the byte
  stored is its integer part: the conversion does not wrap.
\<close>

theorem inverse_lerp_in_range:
  assumes "0 \<le> mn" "mn < mx" "mx \<le> 255"
  shows "\<exists>r. ilerp_value mn mx v = Fin r \<and> 0 \<le> r \<and> r \<le> 255 \<and>
             uint (ilerp_sample mn mx v) = \<lfloor>r\<rfloor>"
proof -
  obtain r where r: "ilerp_value mn mx v = Fin r" "0 \<le> r" "r \<le> 255"
    using ilerp_value_range[OF assms, of v] by blast
  have "uint (ilerp_sample mn mx v) = \<lfloor>r\<rfloor>"
    unfolding ilerp_sample_def r(1) using r(2,3) by (intro np_uint8_in_range) simp_all
  then show ?thesis using r by blast
qed

theorem inverse_lerp_in_range_witness:
  "(0::int) \<le> 0 \<and> (0::int) < 3 \<and> (3::int) \<le> 255 \<and>
   (\<exists>r. ilerp_value 0 3 1 = Fin r \<and> 0 \<le> r \<and> r \<le> 255 \<and> uint (ilerp_sample 0 3 1) = \<lfloor>r\<rfloor>)"
  using inverse_lerp_in_range[of 0 3 1] by simp

text \<open>
  C10 as stated, for every \<open>max \<noteq> min\<close>, fails when \<open>max < min\<close>: at sample 255 with
  \<open>min = 1\<close> and \<open>max = 0\<close> the value is \<open>- 64770\<close>, and the byte stored is 254.
\<close>

theorem inverse_lerp_range_counterexample:
  "ilerp_value 1 0 255 = Fin (- 64770) \<and> ilerp_sample 1 0 255 = 254"
  by code_simp

lemma ilerp_sample_equal:
  assumes "0 \<le> m" "m \<le> 255"
  shows "ilerp_sample m m v = (if m < uint v then 255 else 0)"
proof -
  define x where "x = uint v"
  have xb: "0 \<le> x" "x \<le> 255" using uint8_bounds[of v] by (simp_all add: x_def)
  define n where "n = max (x - m) 0"
  have sub: "np_subtract (asarray_float32 v) (float32_of_int m) = Fin (of_int (x - m))"
  proof -
    have "np_subtract (asarray_float32 v) (float32_of_int m) = round32 (of_int (x - m))"
      using assms by (simp add: asarray_float32_def x_def float32_of_int_small np_subtract_Fin)
    also have "\<dots> = Fin (of_int (x - m))" using xb assms by (intro round32_of_int) simp_all
    finally show ?thesis .
  qed
  have mx0: "np_maximum (Fin (of_int (x - m))) (float32_of_int 0) = Fin (of_int n)"
    by (simp add: float32_of_int_small np_maximum_Fin n_def)
  have dv: "np_true_divide (Fin (of_int n)) (float32_of_int (m - m)) = (if m < x then PInf else NaN)"
    by (simp add: float32_of_int_small np_true_divide_zero n_def)
  show ?thesis
  proof (cases "m < x")
    case True
    have "np_minimum PInf (float32_of_int 1) = Fin 1"
      by (simp add: float32_of_int_small np_minimum_def fp_is_nan_def fp_le_def)
    moreover have "np_multiply (Fin 1) (float32_of_int 255) = Fin 255"
      using round32_of_int[of 255] by (simp add: float32_of_int_small np_multiply_Fin)
    moreover have "np_uint8 (Fin 255) = 255" by (simp add: np_uint8_def to_zero_def)
    ultimately show ?thesis
      using True unfolding ilerp_sample_def ilerp_value_def sub mx0 dv x_def[symmetric] by simp
  next
    case False
    have "np_minimum NaN (float32_of_int 1) = NaN" by (simp add: np_minimum_def fp_is_nan_def)
    moreover have "np_multiply NaN (float32_of_int 255) = NaN"
      by (simp add: np_multiply_def fp_mul_def fp_is_nan_def)
    moreover have "np_uint8 NaN = 0" by (simp add: np_uint8_def)
    ultimately show ?thesis
      using False unfolding ilerp_sample_def ilerp_value_def sub mx0 dv x_def[symmetric] by simp
  qed
qed

text \<open>
  C1 (amended). For every image and every \<open>m\<close> in \<open>0 .. 255\<close>, InverseLerp with
  \<open>min = max = m\<close> raises nothing: it returns the image in which every sample above
  \<open>m\<close> has become 255 and every other sample 0 (the conversions of \<open>min(\<infinity>, 1) * 255\<close>
  and of NaN).
\<close>

theorem inverse_lerp_equal_bounds:
  assumes "0 \<le> m" "m \<le> 255"
  shows "img_ilerp im m m =
           Inr (im\<lparr>im_rows := map (map (map (\<lambda>v. if m < uint v then 255 else 0))) (im_rows im)\<rparr>)"
proof -
  have "ilerp_sample m m = (\<lambda>v. if m < uint v then 255 else 0)"
    using ilerp_sample_equal[OF assms] by (intro ext)
  then show ?thesis by (simp add: img_ilerp_def)
qed

theorem inverse_lerp_equal_bounds_witness:
  "(0::int) \<le> 5 \<and> (5::int) \<le> 255 \<and>
   img_ilerp \<lparr>im_mode = L, im_width = 2, im_height = 1, im_rows = [[[3], [9]]]\<rparr> 5 5 =
     Inr \<lparr>im_mode = L, im_width = 2, im_height = 1, im_rows = [[[0], [255]]]\<rparr>"
  using inverse_lerp_equal_bounds[of 5 "\<lparr>im_mode = L, im_width = 2, im_height = 1, im_rows = [[[3], [9]]]\<rparr>"]
  by simp

text \<open>
  C1 as stated fails: with \<open>min = max = 5\<close> on a one-pixel image the node returns an
  image, not a division error.
\<close>

theorem inverse_lerp_division_counterexample:
  "img_ilerp \<lparr>im_mode = L, im_width = 1, im_height = 1, im_rows = [[[9]]]\<rparr> 5 5 =
     Inr \<lparr>im_mode = L, im_width = 1, im_height = 1, im_rows = [[[255]]]\<rparr> \<and>
   img_ilerp \<lparr>im_mode = L, im_width = 1, im_height = 1, im_rows = [[[9]]]\<rparr> 5 5 \<noteq>
     Inl ZeroDivisionError"
  by code_simp


subsection \<open>Masks, products and crops\<close>

lemma bands_pos: "0 < bands m"
  by (cases m) (simp_all add: bands_def)

lemma split_last: "split im \<noteq> [] \<and> last (split im) = getband im (bands (im_mode im) - 1)"
  by (cases "im_mode im") (simp_all add: split_def bands_def)

lemma tomask_eq:
  "tomask im invert =
     Inr (im\<lparr>im_mode := L,
              im_rows := map (map (\<lambda>p. [if invert then 255 - p ! (bands (im_mode im) - 1)
                                          else p ! (bands (im_mode im) - 1)])) (im_rows im)\<rparr>)"
proof -
  obtain b bs where sp: "split im = b # bs" using split_last[of im] by (cases "split im") auto
  have l: "last (b # bs) = getband im (bands (im_mode im) - 1)" using split_last[of im] sp by simp
  show ?thesis
    unfolding tomask_def sp list.case l Let_def
    by (simp add: getband_def ImageOps_invert_def comp_def)
qed

text \<open>
  C3 (defect of the code). The claim has MaskFromAlpha fail on an image without an alpha
  channel. The node, whose docstring is "Extracts the alpha channel of an image as a
  mask", takes \<^verbatim>\<open>image.split()[-1]\<close> whatever the mode: for an RGB image it returns
  the blue band as the mask, for an \<^verbatim>\<open>L\<close> image the grey values, and raises nothing.
  The channel node on the same RGB image and channel \<^verbatim>\<open>A\<close> does fail.
\<close>

theorem mask_from_alpha_rgb_last_band:
  "tomask \<lparr>im_mode = RGB, im_width = 1, im_height = 1, im_rows = [[[10, 20, 30]]]\<rparr> False =
     Inr \<lparr>im_mode = L, im_width = 1, im_height = 1, im_rows = [[[30]]]\<rparr> \<and>
   tomask \<lparr>im_mode = L, im_width = 1, im_height = 1, im_rows = [[[7]]]\<rparr> True =
     Inr \<lparr>im_mode = L, im_width = 1, im_height = 1, im_rows = [[[248]]]\<rparr> \<and>
   img_chan \<lparr>im_mode = RGB, im_width = 1, im_height = 1, im_rows = [[[10, 20, 30]]]\<rparr> (CHR ''A'') =
     Inl ValueError"
  by code_simp

text \<open>
  C9. For every source image with an alpha channel (mode \<^verbatim>\<open>LA\<close> or \<^verbatim>\<open>RGBA\<close>),
  MaskFromAlpha with \<^verbatim>\<open>invert=True\<close> succeeds, MaskFromAlpha with \<^verbatim>\<open>invert=True\<close>
  on its result succeeds, and the second mask is the alpha channel of the source: the
  image that extracting channel \<^verbatim>\<open>A\<close> gives, every pixel the source pixel's last
  band.
\<close>

theorem mask_double_invert:
  assumes "im_mode im = LA \<or> im_mode im = RGBA"
  shows "\<exists>m1 m2. tomask im True = Inr m1 \<and> tomask m1 True = Inr m2 \<and>
                 getchannel im (CHR ''A'') = Inr m2 \<and>
                 m2 = \<lparr>im_mode = L, im_width = im_width im, im_height = im_height im,
                       im_rows = map (map (\<lambda>p. [p ! (bands (im_mode im) - 1)])) (im_rows im)\<rparr>"
proof -
  define m1 where "m1 = im\<lparr>im_mode := L,
              im_rows := map (map (\<lambda>p. [255 - p ! (bands (im_mode im) - 1)])) (im_rows im)\<rparr>"
  define m2 where "m2 = \<lparr>im_mode = L, im_width = im_width im, im_height = im_height im,
                       im_rows = map (map (\<lambda>p. [p ! (bands (im_mode im) - 1)])) (im_rows im)\<rparr>"
  have t1: "tomask im True = Inr m1" by (simp add: tomask_eq m1_def)
  have t2: "tomask m1 True = Inr m2"
    by (simp add: tomask_eq m1_def m2_def bands_def comp_def)
  have ch: "getchannel im (CHR ''A'') = Inr m2"
    using assms by (auto simp: getchannel_def getband_def m2_def bands_def)
  show ?thesis using t1 t2 ch m2_def by blast
qed

theorem mask_double_invert_witness:
  "(RGBA = LA \<or> RGBA = RGBA) \<and>
   (\<exists>m1 m2. tomask \<lparr>im_mode = RGBA, im_width = 1, im_height = 1, im_rows = [[[10, 20, 30, 40]]]\<rparr> True = Inr m1 \<and>
            tomask m1 True = Inr m2 \<and>
            getchannel \<lparr>im_mode = RGBA, im_width = 1, im_height = 1, im_rows = [[[10, 20, 30, 40]]]\<rparr> (CHR ''A'') = Inr m2 \<and>
            m2 = \<lparr>im_mode = L, im_width = 1, im_height = 1, im_rows = [[[40]]]\<rparr>)"
  using mask_double_invert[of "\<lparr>im_mode = RGBA, im_width = 1, im_height = 1, im_rows = [[[10, 20, 30, 40]]]\<rparr>"]
  by (simp add: bands_def)

lemma chop_pixel_eq: "chop_pixel a b = word_of_int (uint a * uint b div 255)"
proof -
  have a: "0 \<le> uint a" "uint a \<le> 255" using uint8_bounds[of a] by simp_all
  have b: "0 \<le> uint b" "uint b \<le> 255" using uint8_bounds[of b] by simp_all
  have "uint a * uint b \<le> 255 * 255" using a b by (intro mult_mono) simp_all
  then have hi: "uint a * uint b div 255 \<le> 255" by simp
  have lo: "0 \<le> uint a * uint b div 255" using a b by (simp add: pos_imp_zdiv_nonneg_iff)
  show ?thesis using lo hi by (auto simp: chop_pixel_def Let_def)
qed

lemma uint_chop_pixel: "uint (chop_pixel a b) = uint a * uint b div 255"
proof -
  have a: "0 \<le> uint a" "uint a \<le> 255" using uint8_bounds[of a] by simp_all
  have b: "0 \<le> uint b" "uint b \<le> 255" using uint8_bounds[of b] by simp_all
  have "uint a * uint b \<le> 255 * 255" using a b by (intro mult_mono) simp_all
  then have hi: "uint a * uint b div 255 \<le> 255" by simp
  have lo: "0 \<le> uint a * uint b div 255" using a b by (simp add: pos_imp_zdiv_nonneg_iff)
  show ?thesis using lo hi by (simp add: chop_pixel_eq uint_word_of_int take_bit_eq_mod)
qed

text \<open>
  C4 (amended). Multiply does not fail on operands of different sizes. Operands with
  different numbers of bands are a \<^verbatim>\<open>ValueError\<close>; otherwise the node returns an image
  of the first operand's mode, as wide as the narrower and as high as the lower
  operand, each channel value the product \<open>a * b div 255\<close> of the operands' values at
  that position. For operands of equal size that is the product over the whole image.
\<close>

theorem multiply_smaller_size:
  "(bands (im_mode a) \<noteq> bands (im_mode b) \<longrightarrow> img_mul a b = Inl ValueError) \<and>
   (bands (im_mode a) = bands (im_mode b) \<longrightarrow>
      (\<exists>out. img_mul a b = Inr out \<and> im_mode out = im_mode a \<and>
             im_width out = min (im_width a) (im_width b) \<and>
             im_height out = min (im_height a) (im_height b) \<and>
             (\<forall>x < im_width out. \<forall>y < im_height out.
                pixel_at out x y =
                  map2 (\<lambda>u v. word_of_int (uint u * uint v div 255))
                       (pixel_at a x y) (pixel_at b x y))))"
proof -
  have "chop_pixel = (\<lambda>u v. word_of_int (uint u * uint v div 255))"
    by (intro ext) (rule chop_pixel_eq)
  then show ?thesis
    by (auto simp: img_mul_def ImageChops_multiply_def Let_def pixel_at_def)
qed

theorem multiply_smaller_size_witness:
  "bands (im_mode \<lparr>im_mode = L, im_width = 2, im_height = 1, im_rows = [[[255], [200]]]\<rparr>) \<noteq>
     bands (im_mode \<lparr>im_mode = RGB, im_width = 1, im_height = 1, im_rows = [[[1, 2, 3]]]\<rparr>) \<and>
   img_mul \<lparr>im_mode = L, im_width = 2, im_height = 1, im_rows = [[[255], [200]]]\<rparr>
           \<lparr>im_mode = RGB, im_width = 1, im_height = 1, im_rows = [[[1, 2, 3]]]\<rparr> = Inl ValueError \<and>
   bands (im_mode \<lparr>im_mode = L, im_width = 2, im_height = 1, im_rows = [[[255], [200]]]\<rparr>) =
     bands (im_mode \<lparr>im_mode = L, im_width = 2, im_height = 1, im_rows = [[[128], [51]]]\<rparr>) \<and>
   (\<exists>out. img_mul \<lparr>im_mode = L, im_width = 2, im_height = 1, im_rows = [[[255], [200]]]\<rparr>
                   \<lparr>im_mode = L, im_width = 2, im_height = 1, im_rows = [[[128], [51]]]\<rparr> = Inr out \<and>
          im_width out = 2 \<and> im_height out = 1 \<and> pixel_at out 1 0 = [40])"
proof -
  let ?A = "\<lparr>im_mode = L, im_width = 2, im_height = 1, im_rows = [[[255], [200 :: 8 word]]]\<rparr>"
  let ?B = "\<lparr>im_mode = L, im_width = 2, im_height = 1, im_rows = [[[128], [51 :: 8 word]]]\<rparr>"
  let ?C = "\<lparr>im_mode = RGB, im_width = 1, im_height = 1, im_rows = [[[1, 2, 3 :: 8 word]]]\<rparr>"
  have ne: "bands (im_mode ?A) \<noteq> bands (im_mode ?C)" by (simp add: bands_def)
  have eq: "bands (im_mode ?A) = bands (im_mode ?B)" by simp
  have e: "img_mul ?A ?C = Inl ValueError" using multiply_smaller_size[of ?A ?C] ne by blast
  obtain out where o: "img_mul ?A ?B = Inr out" "im_width out = min (im_width ?A) (im_width ?B)"
      "im_height out = min (im_height ?A) (im_height ?B)"
      "\<forall>x < im_width out. \<forall>y < im_height out.
         pixel_at out x y = map2 (\<lambda>u v. word_of_int (uint u * uint v div 255))
                                  (pixel_at ?A x y) (pixel_at ?B x y)"
    using multiply_smaller_size[of ?A ?B] eq by blast
  have w: "im_width out = 2" and h: "im_height out = 1" using o(2,3) by simp_all
  have "pixel_at out 1 0 = map2 (\<lambda>u v. word_of_int (uint u * uint v div 255))
                                  (pixel_at ?A 1 0) (pixel_at ?B 1 0)"
    using o(4) w h by simp
  also have "\<dots> = [40]" by (simp add: pixel_at_def)
  finally have p: "pixel_at out 1 0 = [40]" .
  show ?thesis using ne e eq o(1) w h p by blast
qed

text \<open>
  C4 as stated fails: a 2 by 1 image times a 1 by 1 image is a 1 by 1 image, not an
  error.
\<close>

theorem multiply_size_mismatch_counterexample:
  "img_mul \<lparr>im_mode = L, im_width = 2, im_height = 1, im_rows = [[[255], [200]]]\<rparr>
           \<lparr>im_mode = L, im_width = 1, im_height = 1, im_rows = [[[128]]]\<rparr> =
     Inr \<lparr>im_mode = L, im_width = 1, im_height = 1, im_rows = [[[128]]]\<rparr>"
  by code_simp


lemma convert_RGBA_size [simp]:
  "im_width (convert_RGBA im) = im_width im" "im_height (convert_RGBA im) = im_height im"
  by (simp_all add: convert_RGBA_def)





subsection \<open>Paste\<close>

lemma clip_box_inside: "0 \<le> d0 \<Longrightarrow> d0 + s \<le> dsize \<Longrightarrow> clip_box d0 s dsize = (d0, s)"
  by (simp add: clip_box_def Let_def)

lemma clip_box_region:
  assumes "clip_box d0 s dsize = (cx, xs)" "cx \<le> X" "X < cx + xs"
  shows "0 \<le> X - d0 \<and> X - d0 < s"
  using assms by (auto simp: clip_box_def Let_def split: if_splits)

lemma paste_pixels_header [simp]:
  "im_mode (paste_pixels f dst src dx0 dy0) = im_mode dst"
  "im_width (paste_pixels f dst src dx0 dy0) = im_width dst"
  "im_height (paste_pixels f dst src dx0 dy0) = im_height dst"
  by (simp_all add: paste_pixels_def Let_def split: prod.splits)

lemma paste_pixels_at:
  assumes "X < im_width dst" "Y < im_height dst"
    and "clip_box dx0 (int (im_width src)) (int (im_width dst)) = (cx, xs)"
    and "clip_box dy0 (int (im_height src)) (int (im_height dst)) = (cy, ys)"
  shows "pixel_at (paste_pixels f dst src dx0 dy0) X Y =
           (if cx \<le> int X \<and> int X < cx + xs \<and> cy \<le> int Y \<and> int Y < cy + ys
            then f (pixel_at dst X Y) (nat (int X - dx0)) (nat (int Y - dy0))
                   (pixel_at src (nat (int X - dx0)) (nat (int Y - dy0)))
            else pixel_at dst X Y)"
proof (cases "xs \<le> 0 \<or> ys \<le> 0")
  case True
  then have "paste_pixels f dst src dx0 dy0 = dst"
    by (simp add: paste_pixels_def assms(3,4))
  moreover have "\<not> (cx \<le> int X \<and> int X < cx + xs \<and> cy \<le> int Y \<and> int Y < cy + ys)"
    using True by auto
  ultimately show ?thesis by auto
next
  case False
  then show ?thesis
    using assms(1,2) by (simp add: paste_pixels_def assms(3,4) pixel_at_def)
qed

lemma paste_pixels_inside_at:
  assumes "0 \<le> dx0" "dx0 + int (im_width src) \<le> int (im_width dst)"
    and "0 \<le> dy0" "dy0 + int (im_height src) \<le> int (im_height dst)"
    and "i < im_width src" "j < im_height src"
  shows "pixel_at (paste_pixels f dst src dx0 dy0) (nat dx0 + i) (nat dy0 + j) =
           f (pixel_at dst (nat dx0 + i) (nat dy0 + j)) i j (pixel_at src i j)"
proof -
  have X: "nat dx0 + i < im_width dst" using assms(1,2,5) by linarith
  have Y: "nat dy0 + j < im_height dst" using assms(3,4,6) by linarith
  have cx: "clip_box dx0 (int (im_width src)) (int (im_width dst)) = (dx0, int (im_width src))"
    using assms(1,2) by (rule clip_box_inside)
  have cy: "clip_box dy0 (int (im_height src)) (int (im_height dst)) = (dy0, int (im_height src))"
    using assms(3,4) by (rule clip_box_inside)
  have ix: "nat (int (nat dx0 + i) - dx0) = i" using assms(1) by simp
  have iy: "nat (int (nat dy0 + j) - dy0) = j" using assms(3) by simp
  show ?thesis
    unfolding paste_pixels_at[OF X Y cx cy] ix iy using assms by simp
qed


lemma wf_rows:
  assumes "wf_image im" "y < im_height im"
  shows "length (im_rows im ! y) = im_width im"
  using assms by (simp add: wf_image_def list_all_length)

lemma wf_pixel_len:
  assumes "wf_image im" "x < im_width im" "y < im_height im"
  shows "length (pixel_at im x y) = bands (im_mode im)"
  using assms by (simp add: wf_image_def list_all_length pixel_at_def)

lemma convert_pixel_len: "length p = bands m \<Longrightarrow> length (convert_pixel_RGBA m p) = 4"
  by (cases m) (simp_all add: bands_def)

lemma convert_src_pixel:
  assumes "wf_image im" "i < im_width im" "j < im_height im"
  shows "pixel_at (if RGBA \<noteq> im_mode im then convert_RGBA im else im) i j =
           convert_pixel_RGBA (im_mode im) (pixel_at im i j)"
proof (cases "im_mode im = RGBA")
  case True
  then show ?thesis by simp
next
  case False
  have "length (im_rows im) = im_height im" using assms(1) by (simp add: wf_image_def)
  then show ?thesis
    using False assms wf_rows[OF assms(1,3)] by (simp add: convert_RGBA_def pixel_at_def)
qed

lemma paste_base_ok:
  "\<exists>c1. paste_base base im x y = Inr c1 \<and> im_mode c1 = RGBA \<and>
        int (im_width c1) = max (int (im_width base)) (int (im_width im) + x) - min 0 x \<and>
        int (im_height c1) = max (int (im_height base)) (int (im_height im) + y) - min 0 y"
  by (auto simp: paste_base_def Let_def Image_new_def and_then_def paste_def)

lemma paste_base_pixel_len:
  assumes wf: "wf_image base" and pb: "paste_base base im x y = Inr c1"
    and X: "X < im_width c1" and Y: "Y < im_height c1"
  shows "length (pixel_at c1 X Y) = 4"
proof -
  define W where "W = max (int (im_width base)) (int (im_width im) + x) - min 0 x"
  define H where "H = max (int (im_height base)) (int (im_height im) + y) - min 0 y"
  define canvas where "canvas = \<lparr>im_mode = RGBA, im_width = nat W, im_height = nat H,
      im_rows = replicate (nat H) (replicate (nat W) [0, 0, 0, 0 :: 8 word])\<rparr>"
  define src where "src = (if RGBA \<noteq> im_mode base then convert_RGBA base else base)"
  have WH: "0 \<le> W" "0 \<le> H" by (simp_all add: W_def H_def)
  have c1: "c1 = paste_pixels (\<lambda>out sx sy inp. inp) canvas src \<bar>min 0 x\<bar> \<bar>min 0 y\<bar>"
    using pb WH
    by (simp add: paste_base_def Let_def Image_new_def and_then_def paste_def canvas_def src_def
        W_def H_def)
  have Xc: "X < im_width canvas" and Yc: "Y < im_height canvas"
    using X Y by (simp_all add: c1)
  obtain cx xs where cx: "clip_box \<bar>min 0 x\<bar> (int (im_width src)) (int (im_width canvas)) = (cx, xs)"
    by (cases "clip_box \<bar>min 0 x\<bar> (int (im_width src)) (int (im_width canvas))") auto
  obtain cy ys where cy: "clip_box \<bar>min 0 y\<bar> (int (im_height src)) (int (im_height canvas)) = (cy, ys)"
    by (cases "clip_box \<bar>min 0 y\<bar> (int (im_height src)) (int (im_height canvas))") auto
  have cp: "pixel_at canvas X Y = [0, 0, 0, 0]"
    using Xc Yc by (simp add: canvas_def pixel_at_def)
  show ?thesis
  proof (cases "cx \<le> int X \<and> int X < cx + xs \<and> cy \<le> int Y \<and> int Y < cy + ys")
    case True
    have rx: "0 \<le> int X - \<bar>min 0 x\<bar> \<and> int X - \<bar>min 0 x\<bar> < int (im_width src)"
      using clip_box_region[OF cx] True by blast
    have ry: "0 \<le> int Y - \<bar>min 0 y\<bar> \<and> int Y - \<bar>min 0 y\<bar> < int (im_height src)"
      using clip_box_region[OF cy] True by blast
    define i where "i = nat (int X - \<bar>min 0 x\<bar>)"
    define j where "j = nat (int Y - \<bar>min 0 y\<bar>)"
    have sw: "im_width src = im_width base" "im_height src = im_height base"
      by (simp_all add: src_def)
    have ib: "i < im_width base" using rx unfolding i_def sw by linarith
    have jb: "j < im_height base" using ry unfolding j_def sw by linarith
    have "pixel_at c1 X Y = pixel_at src i j"
      unfolding c1 paste_pixels_at[OF Xc Yc cx cy] using True by (simp add: i_def j_def)
    also have "\<dots> = convert_pixel_RGBA (im_mode base) (pixel_at base i j)"
      unfolding src_def by (rule convert_src_pixel[OF wf ib jb])
    finally show ?thesis
      using wf_pixel_len[OF wf ib jb] by (simp add: convert_pixel_len)
  next
    case False
    have "pixel_at c1 X Y = pixel_at canvas X Y"
      unfolding c1 paste_pixels_at[OF Xc Yc cx cy] using False by (simp only: if_False)
    then show ?thesis by (simp add: cp)
  qed
qed

lemma blend8_0: "blend8 0 a b = a"
proof -
  have "unat a < 2 ^ LENGTH(8)" by (rule unsigned_less)
  then have "unat a < 256" by simp
  then have "((unat a * 255 + 128) div 256 + (unat a * 255 + 128)) div 256 = unat a" by linarith
  then show ?thesis by (simp add: blend8_def Let_def)
qed

lemma blend8_255: "blend8 255 a b = b"
proof -
  have "unat b < 2 ^ LENGTH(8)" by (rule unsigned_less)
  then have "unat b < 256" by simp
  then have "((unat b * 255 + 128) div 256 + (unat b * 255 + 128)) div 256 = unat b" by linarith
  then show ?thesis by (simp add: blend8_def Let_def)
qed

lemma map2_blend8_0: "length xs \<le> length ys \<Longrightarrow> map2 (blend8 0) xs ys = xs"
  by (induction xs arbitrary: ys) (auto simp: blend8_0 Suc_le_length_iff)

lemma map2_blend8_255: "length ys \<le> length xs \<Longrightarrow> map2 (blend8 255) xs ys = ys"
  by (induction ys arbitrary: xs) (auto simp: blend8_255 Suc_le_length_iff)


lemma img_paste_unfold:
  "img_paste base im (Some m) x y =
     and_then (ImageOps_invert m)
       (\<lambda>inv. and_then (paste_base base im x y)
                (\<lambda>c. paste c im (max 0 x, max 0 y) (Some inv)))"
  by (simp add: img_paste_def paste_base_def and_then_def Let_def split: sum.splits)

lemma overlay_fits:
  fixes x :: int
  shows "max 0 x + iw \<le> max bw (iw + x) - min 0 x"
  by (simp add: max_def min_def)

text \<open>
  C7. In every Paste invocation with a mask that succeeds, the mask is a mode
  \<^verbatim>\<open>L\<close> image and each of its values \<open>v\<close> is used as \<open>255 - v\<close>: the output pixel
  at offset \<open>(i, j)\<close> of the pasted image is the blend, with weight \<open>255 - v\<close>, of the
  canvas on which the base has already been pasted and of the image's pixel. So where the
  mask is 255 the canvas with the base shows, and where the mask is 0 the image's pixel
  replaces it.
\<close>

theorem paste_mask_inverted:
  assumes ok: "img_paste base im (Some m) x y = Inr out"
    and wfb: "wf_image base" and wfi: "wf_image im" and wfm: "wf_image m"
    and i: "i < im_width im" and j: "j < im_height im"
  shows "\<exists>c1. paste_base base im x y = Inr c1 \<and> im_mode m = L \<and>
          (let X = nat (max 0 x) + i; Y = nat (max 0 y) + j;
               v = hd (pixel_at m i j);
               under = pixel_at c1 X Y;
               over = convert_pixel_RGBA (im_mode im) (pixel_at im i j)
           in pixel_at out X Y = map2 (blend8 (255 - v)) under over \<and>
              (v = 255 \<longrightarrow> pixel_at out X Y = under) \<and>
              (v = 0 \<longrightarrow> pixel_at out X Y = over))"
proof -
  obtain c1 where c1: "paste_base base im x y = Inr c1" "im_mode c1 = RGBA"
      "int (im_width c1) = max (int (im_width base)) (int (im_width im) + x) - min 0 x"
      "int (im_height c1) = max (int (im_height base)) (int (im_height im) + y) - min 0 y"
    using paste_base_ok[of base im x y] by blast
  define inv where "inv = m\<lparr>im_rows := map (map (map (\<lambda>v. 255 - v))) (im_rows m)\<rparr>"
  have minv: "im_mode m = L \<or> im_mode m = RGB"
    using ok by (auto simp: img_paste_unfold ImageOps_invert_def and_then_def split: if_splits)
  then have io: "ImageOps_invert m = Inr inv" by (auto simp: ImageOps_invert_def inv_def)
  have p2: "paste c1 im (max 0 x, max 0 y) (Some inv) = Inr out"
    using ok by (simp add: img_paste_unfold io c1(1) and_then_def)
  define src where "src = (if RGBA \<noteq> im_mode im then convert_RGBA im else im)"
  have sw: "im_width src = im_width im" "im_height src = im_height im" by (simp_all add: src_def)
  have fx: "max 0 x + int (im_width src) \<le> int (im_width c1)"
    unfolding sw c1(3) by (rule overlay_fits)
  have fy: "max 0 y + int (im_height src) \<le> int (im_height c1)"
    unfolding sw c1(4) by (rule overlay_fits)
  have cbx: "clip_box (max 0 x) (int (im_width src)) (int (im_width c1)) = (max 0 x, int (im_width src))"
    using fx by (intro clip_box_inside) simp_all
  have cby: "clip_box (max 0 y) (int (im_height src)) (int (im_height c1)) = (max 0 y, int (im_height src))"
    using fy by (intro clip_box_inside) simp_all
  have pos: "0 < im_width im" "0 < im_height im" using i j by simp_all
  have dims: "im_width m = im_width im" "im_height m = im_height im"
    using p2 by (auto simp: paste_def Let_def inv_def split: if_splits)
  have mL: "im_mode m = L"
  proof (rule ccontr)
    assume "im_mode m \<noteq> L"
    then have "im_mode inv = RGB" using minv by (simp add: inv_def)
    then have "paste c1 im (max 0 x, max 0 y) (Some inv) = Inl ValueError"
      using dims pos cbx cby
      by (simp add: paste_def Let_def inv_def c1(2) src_def[symmetric] sw)
    then show False using p2 by simp
  qed
  have out: "out = paste_pixels (\<lambda>out sx sy inp. map2 (blend8 (hd (im_rows inv ! sy ! sx))) out inp)
                     c1 src (max 0 x) (max 0 y)"
    using p2 dims pos cbx cby mL
    by (simp add: paste_def Let_def inv_def c1(2) src_def[symmetric] sw)
  define X where "X = nat (max 0 x) + i"
  define Y where "Y = nat (max 0 y) + j"
  have px: "pixel_at out X Y =
              map2 (blend8 (hd (im_rows inv ! j ! i))) (pixel_at c1 X Y) (pixel_at src i j)"
    unfolding out X_def Y_def
    using fx fy i j by (subst paste_pixels_inside_at) (simp_all add: sw)
  have im: "i < im_width m" and jm: "j < im_height m" using i j dims by simp_all
  have rl: "length (im_rows m) = im_height m" using wfm by (simp add: wf_image_def)
  have pl: "length (pixel_at m i j) = 1"
    using wf_pixel_len[OF wfm im jm] mL by (simp add: bands_def)
  then have ne: "pixel_at m i j \<noteq> []" by auto
  have hd_inv: "hd (im_rows inv ! j ! i) = 255 - hd (pixel_at m i j)"
    using im jm rl wf_rows[OF wfm jm] ne
    by (simp add: inv_def pixel_at_def hd_map)
  have sp: "pixel_at src i j = convert_pixel_RGBA (im_mode im) (pixel_at im i j)"
    unfolding src_def by (rule convert_src_pixel[OF wfi i j])
  have Xc: "X < im_width c1" using fx i unfolding X_def sw by linarith
  have Yc: "Y < im_height c1" using fy j unfolding Y_def sw by linarith
  have ul: "length (pixel_at c1 X Y) = 4" by (rule paste_base_pixel_len[OF wfb c1(1) Xc Yc])
  have ol: "length (convert_pixel_RGBA (im_mode im) (pixel_at im i j)) = 4"
    using wf_pixel_len[OF wfi i j] by (rule convert_pixel_len)
  have main: "pixel_at out X Y =
      map2 (blend8 (255 - hd (pixel_at m i j))) (pixel_at c1 X Y)
           (convert_pixel_RGBA (im_mode im) (pixel_at im i j))"
    unfolding px hd_inv sp ..
  have e255: "hd (pixel_at m i j) = 255 \<Longrightarrow> pixel_at out X Y = pixel_at c1 X Y"
    unfolding main using ul ol by (simp add: map2_blend8_0)
  have e0: "hd (pixel_at m i j) = 0 \<Longrightarrow>
      pixel_at out X Y = convert_pixel_RGBA (im_mode im) (pixel_at im i j)"
    unfolding main using ul ol by (simp add: map2_blend8_255)
  show ?thesis
    using c1(1) mL main e255 e0 unfolding Let_def X_def Y_def by blast
qed

theorem paste_mask_inverted_witness:
  "img_paste \<lparr>im_mode = RGB, im_width = 2, im_height = 1, im_rows = [[[1, 2, 3], [4, 5, 6]]]\<rparr>
             \<lparr>im_mode = L, im_width = 1, im_height = 1, im_rows = [[[100]]]\<rparr>
             (Some \<lparr>im_mode = L, im_width = 1, im_height = 1, im_rows = [[[255]]]\<rparr>) 1 0 =
     Inr \<lparr>im_mode = RGBA, im_width = 2, im_height = 1,
          im_rows = [[[1, 2, 3, 255], [4, 5, 6, 255]]]\<rparr> \<and>
   wf_image \<lparr>im_mode = RGB, im_width = 2, im_height = 1, im_rows = [[[1, 2, 3], [4, 5, 6]]]\<rparr> \<and>
   wf_image \<lparr>im_mode = L, im_width = 1, im_height = 1, im_rows = [[[100]]]\<rparr> \<and>
   wf_image \<lparr>im_mode = L, im_width = 1, im_height = 1, im_rows = [[[255]]]\<rparr> \<and>
   (\<exists>c1. paste_base \<lparr>im_mode = RGB, im_width = 2, im_height = 1, im_rows = [[[1, 2, 3], [4, 5, 6]]]\<rparr>
                      \<lparr>im_mode = L, im_width = 1, im_height = 1, im_rows = [[[100]]]\<rparr> 1 0 = Inr c1 \<and>
         pixel_at \<lparr>im_mode = RGBA, im_width = 2, im_height = 1,
                   im_rows = [[[1, 2, 3, 255], [4, 5, 6, 255]]]\<rparr> 1 0 = pixel_at c1 1 0)"
proof -
  let ?B = "\<lparr>im_mode = RGB, im_width = 2, im_height = 1, im_rows = [[[1, 2, 3], [4, 5, 6 :: 8 word]]]\<rparr>"
  let ?I = "\<lparr>im_mode = L, im_width = 1, im_height = 1, im_rows = [[[100 :: 8 word]]]\<rparr>"
  let ?M = "\<lparr>im_mode = L, im_width = 1, im_height = 1, im_rows = [[[255 :: 8 word]]]\<rparr>"
  let ?O = "\<lparr>im_mode = RGBA, im_width = 2, im_height = 1,
          im_rows = [[[1, 2, 3, 255], [4, 5, 6, 255 :: 8 word]]]\<rparr>"
  have ok: "img_paste ?B ?I (Some ?M) 1 0 = Inr ?O"
    by (simp add: img_paste_def and_then_def ImageOps_invert_def Image_new_def paste_def
        paste_pixels_def clip_box_def convert_RGBA_def Let_def upt_conv_Cons numeral_2_eq_2
        blend8_0)
  have wb: "wf_image ?B" by (simp add: wf_image_def bands_def)
  have wi: "wf_image ?I" by (simp add: wf_image_def bands_def)
  have wm: "wf_image ?M" by (simp add: wf_image_def bands_def)
  have i: "(0::nat) < im_width ?I" and j: "(0::nat) < im_height ?I" by simp_all
  have v: "hd (pixel_at ?M 0 0) = 255" by (simp add: pixel_at_def)
  have xy: "nat (max 0 (1::int)) + 0 = 1" "nat (max 0 (0::int)) + 0 = 0" by simp_all
  from paste_mask_inverted[OF ok wb wi wm i j]
  obtain c1 where c: "paste_base ?B ?I 1 0 = Inr c1"
    and r: "hd (pixel_at ?M 0 0) = 255 \<longrightarrow>
            pixel_at ?O (nat (max 0 1) + 0) (nat (max 0 0) + 0) =
            pixel_at c1 (nat (max 0 1) + 0) (nat (max 0 0) + 0)"
    unfolding Let_def by blast
  have "pixel_at ?O 1 0 = pixel_at c1 1 0" using r v unfolding xy by blast
  then show ?thesis using ok wb wi wm c by blast
qed

end
